theory Spec2Isabelle
  imports Complex_Main
begin

section \<open>DigiReceipt: record store, sequence generator and document assembler\<close>

text \<open>
  The development follows \<^verbatim>\<open>src/DigiAndQuote.py\<close>. The SQLite database is a pair of
  tables, each a list of rows in the order of their \<^verbatim>\<open>AUTOINCREMENT\<close> id (an insert
  appends; nothing in the program updates or deletes). Python's \<^verbatim>\<open>int\<close> and
  \<^verbatim>\<open>float\<close> values of a document share one type of numbers \<open>'n\<close>, of which only
  the operators the program applies are used (\<open>0\<close>, \<open>+\<close>, \<open>*\<close>, \<open>-\<close>, \<open>\<le>\<close> and
  \<open><\<close>); no law of arithmetic is assumed unless a theorem says so by its sort. The
  \<^verbatim>\<open>json\<close> library is not part of the program: \<^verbatim>\<open>json.dumps\<close> and
  \<^verbatim>\<open>json.loads\<close> are parameters \<open>dumps\<close> and \<open>loads\<close> of the functions calling
  them, and \<open>'j\<close> is the type of the serialized text.
\<close>

subsection \<open>Python's \<^verbatim>\<open>int(str)\<close> and the format \<^verbatim>\<open>04d\<close>\<close>

text \<open>
  A \<^typ>\<open>char\<close> stands for a code point below 256. The characters \<^verbatim>\<open>int\<close> strips
  from both ends are tab, line feed, vertical tab, form feed, carriage return, space,
  U+0085 and U+00A0.
\<close>

definition py_isspace :: "char \<Rightarrow> bool" where
  "py_isspace c \<longleftrightarrow> of_char c \<in> set [9, 10, 11, 12, 13, 32, 133, 160 :: nat]"

definition strip :: "string \<Rightarrow> string" where
  "strip s = rev (dropWhile py_isspace (rev (dropWhile py_isspace s)))"

definition is_digit :: "char \<Rightarrow> bool" where
  "is_digit c \<longleftrightarrow> 48 \<le> (of_char c :: nat) \<and> (of_char c :: nat) \<le> 57"

definition digit_val :: "char \<Rightarrow> nat" where
  "digit_val c = of_char c - 48"

text \<open>
  The digits of a literal in base 10: one digit at least, and single underscores allowed
  between two digits only. \<open>None\<close> is a malformed literal.
\<close>

fun digits_of :: "string \<Rightarrow> nat list option" where
  "digits_of [] = None"
| "digits_of [c] = (if is_digit c then Some [digit_val c] else None)"
| "digits_of (c # d # cs) =
     (if \<not> is_digit c then None
      else if d = CHR ''_'' then map_option ((#) (digit_val c)) (digits_of cs)
      else map_option ((#) (digit_val c)) (digits_of (d # cs)))"

definition digits_value :: "nat list \<Rightarrow> nat" where
  "digits_value ds = foldl (\<lambda>a d. 10 * a + d) 0 ds"

text \<open>
  \<^verbatim>\<open>sys.get_int_max_str_digits()\<close>: a literal with more digits (leading zeros counted,
  underscores and sign not) raises \<^verbatim>\<open>ValueError\<close>.
\<close>

definition int_max_str_digits :: nat where
  "int_max_str_digits = 4300"

text \<open>\<^verbatim>\<open>int(s)\<close> for a string \<open>s\<close>; \<open>None\<close> is \<^verbatim>\<open>ValueError\<close>.\<close>

definition py_int :: "string \<Rightarrow> int option" where
  "py_int s =
     (let t = strip s;
          (negative, body) =
            (case t of
               c # r \<Rightarrow> if c = CHR ''-'' then (True, r)
                        else if c = CHR ''+'' then (False, r) else (False, t)
             | [] \<Rightarrow> (False, t))
      in case digits_of body of
           None \<Rightarrow> None
         | Some ds \<Rightarrow>
             if length ds > int_max_str_digits then None
             else Some (if negative then - int (digits_value ds) else int (digits_value ds)))"

definition digit_char :: "nat \<Rightarrow> char" where
  "digit_char d = char_of (48 + d)"

fun dec :: "nat \<Rightarrow> string" where
  "dec n = (if n < 10 then [digit_char n] else dec (n div 10) @ [digit_char (n mod 10)])"

declare dec.simps [simp del]

definition zero_pad :: "nat \<Rightarrow> string \<Rightarrow> string" where
  "zero_pad w s = replicate (w - length s) (CHR ''0'') @ s"

text \<open>
  \<^verbatim>\<open>f"{n:04d}"\<close>: at least four characters, the sign first and counted in the width, so
  that \<open>-4\<close> prints as \<^verbatim>\<open>-004\<close> and \<open>10000\<close> as \<^verbatim>\<open>10000\<close>.
\<close>

definition fmt04d :: "int \<Rightarrow> string" where
  "fmt04d n =
     (if n < 0 then CHR ''-'' # zero_pad 3 (dec (nat (- n))) else zero_pad 4 (dec (nat n)))"

subsection \<open>The database\<close>

record 'n invoice_row =
  row_timestamp :: string
  row_vendor :: string
  row_invoice_no :: string
  row_total :: 'n
  row_user_id :: string

record 'j invoice_full_row =
  full_timestamp :: string
  full_invoice_no :: string
  full_invoice_json :: 'j
  full_user_id :: string

record ('n, 'j) database =
  invoices :: "'n invoice_row list"
  invoices_full :: "'j invoice_full_row list"

definition empty_database :: "('n, 'j) database" where
  "empty_database = \<lparr>invoices = [], invoices_full = []\<rparr>"

subsection \<open>The invoice document\<close>

record vendor =
  vendor_name :: string
  vendor_address :: string
  vendor_phone :: string
  vendor_ntn :: string

record client =
  client_name :: string
  client_address :: string
  client_phone :: string
  client_ntn :: string
  client_notes :: string

record 'n item =
  item_name :: string
  item_quantity :: 'n
  item_price :: 'n
  item_line_total :: "'n option"

record invoice_info =
  info_invoice_no :: string
  info_date :: string
  info_timestamp :: string

text \<open>
  The dictionary \<^verbatim>\<open>st.session_state["invoice_data"]\<close>. The keys written on generation only
  (\<^verbatim>\<open>invoice_info\<close>, \<^verbatim>\<open>subtotal\<close>, \<^verbatim>\<open>discount\<close>, \<^verbatim>\<open>grand_total\<close>, and an
  item's \<^verbatim>\<open>line_total\<close>) are optional fields: \<open>None\<close> is an absent key.
\<close>

record 'n invoice_data =
  vendor :: vendor
  client :: client
  items :: "'n item list"
  doc_type :: string
  invoice_info :: "invoice_info option"
  subtotal :: "'n option"
  discount :: "'n option"
  grand_total :: "'n option"

subsection \<open>Record store\<close>

text \<open>
  Every text column holds a string, as the application writes it (no \<^verbatim>\<open>NULL\<close>), and
  the database file can be opened and written: a failure of SQLite itself is outside the
  model. The table \<^verbatim>\<open>clients\<close> is created by \<^verbatim>\<open>init_db\<close> and used nowhere else.
\<close>

datatype py_exception = JSONDecodeError

definition log_invoice ::
  "('n invoice_data \<Rightarrow> 'j) \<Rightarrow> string \<Rightarrow> string \<Rightarrow> string \<Rightarrow> 'n \<Rightarrow> 'n invoice_data \<Rightarrow> string \<Rightarrow>
   ('n, 'j) database \<Rightarrow> ('n, 'j) database" where
  "log_invoice dumps timestamp vendor_nm invoice_no total_amt invoice_json user_id db =
     db\<lparr>invoices := invoices db @
          [\<lparr>row_timestamp = timestamp, row_vendor = vendor_nm, row_invoice_no = invoice_no,
            row_total = total_amt, row_user_id = user_id\<rparr>],
        invoices_full := invoices_full db @
          [\<lparr>full_timestamp = timestamp, full_invoice_no = invoice_no,
            full_invoice_json = dumps invoice_json, full_user_id = user_id\<rparr>]\<rparr>"

definition get_invoices_from_db :: "string \<Rightarrow> ('n, 'j) database \<Rightarrow> 'n invoice_row list" where
  "get_invoices_from_db user_id db = filter (\<lambda>r. row_user_id r = user_id) (invoices db)"

text \<open>
  \<^verbatim>\<open>SELECT invoice_no FROM invoices ORDER BY id DESC LIMIT 1\<close> is the last row of the
  table, whoever owns it.
\<close>

definition get_last_invoice_no_from_db :: "('n, 'j) database \<Rightarrow> int" where
  "get_last_invoice_no_from_db db =
     (case invoices db of
        [] \<Rightarrow> 0
      | _ # _ \<Rightarrow>
          (case py_int (row_invoice_no (last (invoices db))) of
             Some n \<Rightarrow> n
           | None \<Rightarrow> 0))"

text \<open>
  \<^verbatim>\<open>fetchone\<close> of a query with no \<^verbatim>\<open>ORDER BY\<close> on a table with no index: the first
  matching row in id order. \<open>Inr None\<close> is the result \<^verbatim>\<open>None\<close>; a text that
  \<^verbatim>\<open>json.loads\<close> refuses raises.
\<close>

definition get_full_invoice_data ::
  "('j \<Rightarrow> 'n invoice_data option) \<Rightarrow> string \<Rightarrow> string \<Rightarrow> ('n, 'j) database \<Rightarrow>
   py_exception + 'n invoice_data option" where
  "get_full_invoice_data loads invoice_no user_id db =
     (case filter (\<lambda>r. full_invoice_no r = invoice_no \<and> full_user_id r = user_id)
             (invoices_full db) of
        [] \<Rightarrow> Inr None
      | result # _ \<Rightarrow>
          (case loads (full_invoice_json result) of
             None \<Rightarrow> Inl JSONDecodeError
           | Some d \<Rightarrow> Inr (Some d)))"

subsection \<open>Sequence generator\<close>

text \<open>Lines 545 and 546 of \<^verbatim>\<open>app\<close>: the number the next generated document gets.\<close>

definition next_invoice_no :: "('n, 'j) database \<Rightarrow> string" where
  "next_invoice_no db = fmt04d (get_last_invoice_no_from_db db + 1)"

subsection \<open>Session state and the form\<close>

text \<open>
  The part of \<^verbatim>\<open>st.session_state\<close> the store depends on: the owner id, the draft
  document, and the number of the last generated document kept for the download buttons
  (\<^verbatim>\<open>last_invoice_info\<close>, \<open>None\<close> when the key is absent).
\<close>

record 'n session =
  ss_user_id :: string
  ss_invoice_data :: "'n invoice_data"
  ss_last_invoice_info :: "string option"

text \<open>
  The values the widgets of the form return in one run of the script. The item widgets
  are keyed by the index of the item (\<^verbatim>\<open>item_name_{i}\<close>, \<^verbatim>\<open>item_quantity_{i}\<close>,
  \<^verbatim>\<open>item_price_{i}\<close>); the client widgets exist only while the client section is shown.
\<close>

record 'n form =
  w_doc_type :: string
  w_vendor :: vendor
  w_client :: "client option"
  w_item_name :: "nat \<Rightarrow> string"
  w_item_quantity :: "nat \<Rightarrow> 'n"
  w_item_price :: "nat \<Rightarrow> 'n"
  w_discount_amount :: 'n

text \<open>
  Lines 490 to 504: the loop over the items of the draft. It stores the widget values and
  the line total in each item and accumulates the subtotal.
\<close>

fun items_loop ::
  "('n::{plus,times}) form \<Rightarrow> nat \<Rightarrow> 'n item list \<Rightarrow> 'n \<Rightarrow> 'n item list \<times> 'n" where
  "items_loop w i [] subtotal' = ([], subtotal')"
| "items_loop w i (item # rest) subtotal' =
     (let item1 = item\<lparr>item_name := w_item_name w i,
                        item_quantity := w_item_quantity w i,
                        item_price := w_item_price w i\<rparr>;
          line_total = item_quantity item1 * item_price item1;
          item2 = item1\<lparr>item_line_total := Some line_total\<rparr>;
          (rest', total') = items_loop w (Suc i) rest (subtotal' + line_total)
      in (item2 # rest', total'))"

text \<open>Lines 449 to 504: the draft after the form is drawn, and the subtotal.\<close>

definition render_form ::
  "('n::{zero,plus,times}) form \<Rightarrow> 'n invoice_data \<Rightarrow> 'n invoice_data \<times> 'n" where
  "render_form w d =
     (let d1 = d\<lparr>doc_type := w_doc_type w, vendor := w_vendor w\<rparr>;
          d2 = (case w_client w of None \<Rightarrow> d1 | Some c \<Rightarrow> d1\<lparr>client := c\<rparr>);
          (items', subtotal') = items_loop w 0 (items d2) 0
      in (d2\<lparr>items := items'\<rparr>, subtotal'))"

subsection \<open>Document assembler\<close>

text \<open>Lines 516 to 521: the loop that stops at the first incomplete item.\<close>

fun incomplete_item_exists :: "('n::{zero,ord}) item list \<Rightarrow> bool" where
  "incomplete_item_exists [] = False"
| "incomplete_item_exists (item # rest) =
     (if item_name item \<noteq> [] \<and> (item_quantity item \<le> 0 \<or> item_price item \<le> 0) then True
      else incomplete_item_exists rest)"

text \<open>Lines 530 to 533.\<close>

definition is_valid_items :: "('n::{zero,ord}) item list \<Rightarrow> bool" where
  "is_valid_items its =
     list_ex (\<lambda>item. item_name item \<noteq> [] \<and> item_quantity item > 0 \<and> item_price item > 0) its"

datatype warning = Item_validation_warning | Validation_warning

text \<open>The two checks in the order of the source; \<open>None\<close> lets the generation proceed.\<close>

definition item_validation :: "('n::{zero,ord}) item list \<Rightarrow> warning option" where
  "item_validation its =
     (if incomplete_item_exists its then Some Item_validation_warning
      else if \<not> is_valid_items its then Some Validation_warning
      else None)"

text \<open>
  What the QR code is made from (lines 567 to 571): the document read back from the store,
  or the text \<^verbatim>\<open>Error retrieving invoice data.\<close>
\<close>

datatype 'n qr_data = Qr_invoice "'n invoice_data" | Qr_error

datatype 'n outcome =
  Rejected warning
| Generated string 'n "'n qr_data"
| Raised py_exception

text \<open>
  One run of the script in which the button \<^verbatim>\<open>Generate Document\<close> was pressed (lines 449
  to 587), as a function of the widget values, the two readings of the clock, the session
  and the database. The printable artifact and the CSV export are left out.
\<close>

definition generate_clicked ::
  "('n invoice_data \<Rightarrow> 'j) \<Rightarrow> ('j \<Rightarrow> 'n invoice_data option) \<Rightarrow> string \<Rightarrow> string \<Rightarrow>
   ('n::{zero,ord,plus,times,minus}) form \<Rightarrow> 'n session \<Rightarrow> ('n, 'j) database \<Rightarrow>
   'n outcome \<times> 'n session \<times> ('n, 'j) database" where
  "generate_clicked dumps loads timestamp today w s db =
     (let (d, subtotal') = render_form w (ss_invoice_data s);
          discount_amount = w_discount_amount w;
          s1 = s\<lparr>ss_invoice_data := d\<rparr>
      in if incomplete_item_exists (items d)
         then (Rejected Item_validation_warning, s1\<lparr>ss_last_invoice_info := None\<rparr>, db)
         else
           let grand_total' = subtotal' - discount_amount
           in if \<not> is_valid_items (items d)
              then (Rejected Validation_warning, s1\<lparr>ss_last_invoice_info := None\<rparr>, db)
              else
                let last_invoice_no = get_last_invoice_no_from_db db;
                    invoice_no = fmt04d (last_invoice_no + 1);
                    d' = d\<lparr>invoice_info := Some \<lparr>info_invoice_no = invoice_no,
                                                  info_date = today,
                                                  info_timestamp = timestamp\<rparr>,
                           subtotal := Some subtotal',
                           discount := Some discount_amount,
                           grand_total := Some grand_total'\<rparr>;
                    s2 = s1\<lparr>ss_invoice_data := d'\<rparr>;
                    db' = log_invoice dumps timestamp (vendor_name (vendor d')) invoice_no
                            grand_total' d' (ss_user_id s) db
                in case get_full_invoice_data loads invoice_no (ss_user_id s) db' of
                     Inl e \<Rightarrow> (Raised e, s2, db')
                   | Inr None \<Rightarrow>
                       (Generated invoice_no grand_total' Qr_error,
                        s2\<lparr>ss_last_invoice_info := Some invoice_no\<rparr>, db')
                   | Inr (Some full_invoice_data) \<Rightarrow>
                       (Generated invoice_no grand_total' (Qr_invoice full_invoice_data),
                        s2\<lparr>ss_last_invoice_info := Some invoice_no\<rparr>, db'))"

text \<open>
  Lines 618 to 625: the button \<^verbatim>\<open>Load Document\<close> with the number typed beside it. A
  number found under the session's owner replaces the draft.
\<close>

definition load_clicked ::
  "('j \<Rightarrow> 'n invoice_data option) \<Rightarrow> string \<Rightarrow> 'n session \<Rightarrow> ('n, 'j) database \<Rightarrow>
   py_exception + 'n session" where
  "load_clicked loads load_invoice_no s db =
     (if load_invoice_no = [] then Inr s
      else case get_full_invoice_data loads load_invoice_no (ss_user_id s) db of
             Inl e \<Rightarrow> Inl e
           | Inr None \<Rightarrow> Inr s
           | Inr (Some loaded_data) \<Rightarrow> Inr (s\<lparr>ss_invoice_data := loaded_data\<rparr>))"

text \<open>The operations of the application on the store, and one run of each.\<close>

datatype 'n action =
  Generate_document "'n form" string string
| Load_document string
| View_documents

definition app ::
  "('n invoice_data \<Rightarrow> 'j) \<Rightarrow> ('j \<Rightarrow> 'n invoice_data option) \<Rightarrow>
   ('n::{zero,ord,plus,times,minus}) action \<Rightarrow> 'n session \<Rightarrow> ('n, 'j) database \<Rightarrow>
   'n session \<times> ('n, 'j) database \<times> 'n invoice_row list" where
  "app dumps loads a s db =
     (case a of
        Generate_document w timestamp today \<Rightarrow>
          (case generate_clicked dumps loads timestamp today w s db of
             (out, s', db') \<Rightarrow> (s', db', get_invoices_from_db (ss_user_id s') db'))
      | Load_document load_invoice_no \<Rightarrow>
          (case load_clicked loads load_invoice_no s db of
             Inl e \<Rightarrow> (s, db, [])
           | Inr s' \<Rightarrow> (s', db, get_invoices_from_db (ss_user_id s') db))
      | View_documents \<Rightarrow> (s, db, get_invoices_from_db (ss_user_id s) db))"

text \<open>
  Stores the application writes: any sequence of runs, each in whatever state its session
  is in (sessions of several owners interleave on one database).
\<close>

definition app_runs ::
  "('n invoice_data \<Rightarrow> 'j) \<Rightarrow> ('j \<Rightarrow> 'n invoice_data option) \<Rightarrow>
   ('n session \<times> ('n::{zero,ord,plus,times,minus}) action) list \<Rightarrow> ('n, 'j) database \<Rightarrow>
   ('n, 'j) database" where
  "app_runs dumps loads steps db =
     foldl (\<lambda>db' (s, a). fst (snd (app dumps loads a s db'))) db steps"

subsection \<open>Properties of a store\<close>

text \<open>
  The numbers of a store were issued in sequence when the rows carry \<^verbatim>\<open>0001\<close>,
  \<^verbatim>\<open>0002\<close>, ... in the order of insertion, in both tables.
\<close>

definition issued_in_sequence :: "('n, 'j) database \<Rightarrow> bool" where
  "issued_in_sequence db \<longleftrightarrow>
     map row_invoice_no (invoices db) =
       map (\<lambda>k. fmt04d (int k)) [1..<Suc (length (invoices db))] \<and>
     map full_invoice_no (invoices_full db) = map row_invoice_no (invoices db)"

text \<open>Every stored text is one that \<open>loads\<close> accepts.\<close>

definition decodable :: "('j \<Rightarrow> 'n invoice_data option) \<Rightarrow> ('n, 'j) database \<Rightarrow> bool" where
  "decodable loads db \<longleftrightarrow>
     list_all (\<lambda>r. loads (full_invoice_json r) \<noteq> None) (invoices_full db)"

text \<open>The two tables hold the same numbers, timestamps and owners, row by row.\<close>

definition rows_paired :: "('n, 'j) database \<Rightarrow> bool" where
  "rows_paired db \<longleftrightarrow>
     map (\<lambda>r. (row_invoice_no r, row_timestamp r, row_user_id r)) (invoices db) =
     map (\<lambda>r. (full_invoice_no r, full_timestamp r, full_user_id r)) (invoices_full db)"

subsection \<open>Example documents, forms and stores\<close>

text \<open>
  Numbers are \<^typ>\<open>real\<close> in the examples, and the serialized text of a document is the
  document (\<open>dumps = id\<close>, \<open>loads = Some\<close>).
\<close>

definition shop_vendor :: vendor where
  "shop_vendor = \<lparr>vendor_name = ''Corner Shop'', vendor_address = ''1 Main St'',
     vendor_phone = ''555'', vendor_ntn = ''12''\<rparr>"

definition blank_client :: client where
  "blank_client = \<lparr>client_name = [], client_address = [], client_phone = [],
     client_ntn = [], client_notes = []\<rparr>"

text \<open>The draft of lines 436 to 442 after one more press of \<^verbatim>\<open>Add Item\<close>.\<close>

definition two_item_draft :: "real invoice_data" where
  "two_item_draft =
     \<lparr>vendor = \<lparr>vendor_name = [], vendor_address = [], vendor_phone = [], vendor_ntn = []\<rparr>,
      client = blank_client,
      items = [\<lparr>item_name = [], item_quantity = 1, item_price = 0, item_line_total = None\<rparr>,
               \<lparr>item_name = [], item_quantity = 1, item_price = 0, item_line_total = None\<rparr>],
      doc_type = ''invoice'', invoice_info = None, subtotal = None, discount = None,
      grand_total = None\<rparr>"

definition shop1_session :: "real session" where
  "shop1_session =
     \<lparr>ss_user_id = ''shop1'', ss_invoice_data = two_item_draft, ss_last_invoice_info = None\<rparr>"

text \<open>Two items, 2 at 10.0 and 1 at 5.0, with a discount of 3.0.\<close>

definition pen_bag_form :: "real form" where
  "pen_bag_form =
     \<lparr>w_doc_type = ''invoice'', w_vendor = shop_vendor, w_client = None,
      w_item_name = (\<lambda>i. if i = 0 then ''Pen'' else ''Bag''),
      w_item_quantity = (\<lambda>i. if i = 0 then 2 else 1),
      w_item_price = (\<lambda>i. if i = 0 then 10 else 5),
      w_discount_amount = 3\<rparr>"

text \<open>The form as it is drawn for a fresh draft, with nothing typed in.\<close>

definition untouched_form :: "real form" where
  "untouched_form =
     \<lparr>w_doc_type = ''invoice'', w_vendor = shop_vendor, w_client = None,
      w_item_name = (\<lambda>i. []),
      w_item_quantity = (\<lambda>i. 1),
      w_item_price = (\<lambda>i. 0),
      w_discount_amount = 0\<rparr>"

text \<open>A pen at 10.0 and a bag whose price was left at 0.0.\<close>

definition free_bag_form :: "real form" where
  "free_bag_form =
     \<lparr>w_doc_type = ''invoice'', w_vendor = shop_vendor, w_client = None,
      w_item_name = (\<lambda>i. if i = 0 then ''Pen'' else ''Bag''),
      w_item_quantity = (\<lambda>i. 1),
      w_item_price = (\<lambda>i. if i = 0 then 10 else 0),
      w_discount_amount = 0\<rparr>"

text \<open>Two stored documents, as generated under the number \<open>no\<close>.\<close>

definition pen_doc :: "string \<Rightarrow> real invoice_data" where
  "pen_doc no = two_item_draft\<lparr>vendor := shop_vendor,
     items := [\<lparr>item_name = ''Pen'', item_quantity = 1, item_price = 10,
                item_line_total = Some 10\<rparr>],
     invoice_info := Some \<lparr>info_invoice_no = no, info_date = ''2024-01-01'',
                             info_timestamp = ''2024-01-01T10:00:00+00:00''\<rparr>,
     subtotal := Some 10, discount := Some 0, grand_total := Some 10\<rparr>"

definition bag_doc :: "string \<Rightarrow> real invoice_data" where
  "bag_doc no = two_item_draft\<lparr>vendor := shop_vendor,
     items := [\<lparr>item_name = ''Bag'', item_quantity = 1, item_price = 5,
                item_line_total = Some 5\<rparr>],
     invoice_info := Some \<lparr>info_invoice_no = no, info_date = ''2024-01-02'',
                             info_timestamp = ''2024-01-02T10:00:00+00:00''\<rparr>,
     subtotal := Some 5, discount := Some 0, grand_total := Some 5\<rparr>"

text \<open>A store whose most recent number is lower than an earlier one.\<close>

definition store_0007_0003 :: "(real, real invoice_data) database" where
  "store_0007_0003 =
     log_invoice id ''2024-01-02T10:00:00+00:00'' ''Corner Shop'' ''0003'' 5 (bag_doc ''0003'') ''shop1''
       (log_invoice id ''2024-01-01T10:00:00+00:00'' ''Corner Shop'' ''0007'' 10 (pen_doc ''0007'') ''shop1''
          empty_database)"

text \<open>A store in which a number that is no integer was logged after \<^verbatim>\<open>0001\<close>.\<close>

definition store_0001_abc :: "(real, real invoice_data) database" where
  "store_0001_abc =
     log_invoice id ''2024-01-02T10:00:00+00:00'' ''Corner Shop'' ''abc'' 5 (bag_doc ''abc'') ''shop2''
       (log_invoice id ''2024-01-01T10:00:00+00:00'' ''Corner Shop'' ''0001'' 10 (pen_doc ''0001'') ''shop1''
          empty_database)"

text \<open>A store in sequence, with one document of each of two owners.\<close>

definition store_two_owners :: "(real, real invoice_data) database" where
  "store_two_owners =
     log_invoice id ''2024-01-02T10:00:00+00:00'' ''Corner Shop'' ''0002'' 5 (bag_doc ''0002'') ''shop2''
       (log_invoice id ''2024-01-01T10:00:00+00:00'' ''Corner Shop'' ''0001'' 10 (pen_doc ''0001'') ''shop1''
          empty_database)"

section \<open>Printing and reading invoice numbers\<close>

text \<open>
  What \<^const>\<open>fmt04d\<close> prints, \<^const>\<open>py_int\<close> reads back, as long as the digits stay
  within the limit of the interpreter.
\<close>

lemma digit_val_digit_char: "d < 10 \<Longrightarrow> digit_val (digit_char d) = d"
  by (simp add: digit_val_def digit_char_def)

lemma is_digit_digit_char: "d < 10 \<Longrightarrow> is_digit (digit_char d)"
  by (simp add: is_digit_def digit_char_def)

lemma digits_of_all_digits:
  "s \<noteq> [] \<Longrightarrow> list_all is_digit s \<Longrightarrow> digits_of s = Some (map digit_val s)"
proof (induction s rule: digits_of.induct)
  case 1
  then show ?case by simp
next
  case (2 c)
  then show ?case by simp
next
  case (3 c d cs)
  have "d \<noteq> CHR ''_''"
    using 3(4) by (auto simp: is_digit_def)
  with 3 show ?case by simp
qed

lemma dec_not_empty: "dec n \<noteq> []"
  by (subst dec.simps) simp

lemma dec_all_digits: "list_all is_digit (dec n)"
proof (induction n rule: dec.induct)
  case (1 n)
  show ?case
  proof (cases "n < 10")
    case True
    then show ?thesis by (subst dec.simps) (simp add: is_digit_digit_char)
  next
    case False
    with 1 show ?thesis by (subst dec.simps) (simp add: is_digit_digit_char)
  qed
qed

lemma digits_value_snoc: "digits_value (ds @ [d]) = 10 * digits_value ds + d"
  by (simp add: digits_value_def)

lemma digits_value_dec: "digits_value (map digit_val (dec n)) = n"
proof (induction n rule: dec.induct)
  case (1 n)
  show ?case
  proof (cases "n < 10")
    case True
    then show ?thesis
      by (subst dec.simps) (simp add: digits_value_def digit_val_digit_char)
  next
    case False
    with 1 show ?thesis
      by (subst dec.simps) (simp add: digits_value_snoc digit_val_digit_char)
  qed
qed

lemma digits_value_zeros: "digits_value (replicate k 0 @ ds) = digits_value ds"
proof -
  have "foldl (\<lambda>a d. 10 * a + d) 0 (replicate k (0::nat)) = 0"
    by (induction k) simp_all
  then show ?thesis by (simp add: digits_value_def)
qed

lemma digit_val_zero: "digit_val (CHR ''0'') = 0"
  by (simp add: digit_val_def)

lemma is_digit_zero: "is_digit (CHR ''0'')"
  by (simp add: is_digit_def)

lemma zero_pad_value: "digits_value (map digit_val (zero_pad w (dec n))) = n"
  by (simp add: zero_pad_def digit_val_zero digits_value_zeros digits_value_dec)

lemma zero_pad_all_digits: "list_all is_digit (zero_pad w (dec n))"
  using dec_all_digits [of n] by (auto simp: zero_pad_def is_digit_zero list_all_iff)

lemma zero_pad_not_empty: "zero_pad w (dec n) \<noteq> []"
  by (simp add: zero_pad_def dec_not_empty)

lemma length_zero_pad: "length (zero_pad w s) = max w (length s)"
  by (simp add: zero_pad_def)

lemma digits_of_zero_pad:
  "digits_of (zero_pad w (dec n)) = Some (map digit_val (zero_pad w (dec n)))"
  by (rule digits_of_all_digits [OF zero_pad_not_empty zero_pad_all_digits])

lemma is_digit_not_space: "is_digit c \<Longrightarrow> \<not> py_isspace c"
  by (auto simp: is_digit_def py_isspace_def)

lemma strip_id:
  assumes "s \<noteq> []" "\<not> py_isspace (hd s)" "\<not> py_isspace (last s)"
  shows "strip s = s"
proof -
  from assms have a: "dropWhile py_isspace s = s"
    by (cases s) simp_all
  from assms have "dropWhile py_isspace (rev s) = rev s"
    by (cases "rev s") (simp_all add: last_rev hd_rev)
  with a show ?thesis by (simp add: strip_def)
qed


lemma all_digits_ends:
  assumes "s \<noteq> []" "list_all is_digit s"
  shows "is_digit (hd s)" "is_digit (last s)"
  using assms by (auto simp: list_all_iff)

lemma is_digit_not_sign: "is_digit c \<Longrightarrow> c \<noteq> CHR ''-'' \<and> c \<noteq> CHR ''+''"
  by (auto simp: is_digit_def)

lemma py_int_digits:
  assumes "s \<noteq> []" "list_all is_digit s" "length s \<le> int_max_str_digits"
  shows "py_int s = Some (int (digits_value (map digit_val s)))"
proof -
  have st: "strip s = s"
    using assms all_digits_ends [of s] by (simp add: strip_id is_digit_not_space)
  obtain c r where s: "s = c # r"
    using assms(1) by (cases s) auto
  have "is_digit c"
    using assms(2) s by simp
  then have c: "c \<noteq> CHR ''-''" "c \<noteq> CHR ''+''"
    using is_digit_not_sign by auto
  have "digits_of s = Some (map digit_val s)"
    using assms by (simp add: digits_of_all_digits)
  then show ?thesis
    using st s c assms(3) by (simp add: py_int_def)
qed

lemma py_int_minus_digits:
  assumes "s \<noteq> []" "list_all is_digit s" "length s \<le> int_max_str_digits"
  shows "py_int (CHR ''-'' # s) = Some (- int (digits_value (map digit_val s)))"
proof -
  have "\<not> py_isspace (CHR ''-'')"
    by (simp add: py_isspace_def)
  then have st: "strip (CHR ''-'' # s) = CHR ''-'' # s"
    using assms all_digits_ends [of s] by (simp add: strip_id is_digit_not_space)
  have "digits_of s = Some (map digit_val s)"
    using assms by (simp add: digits_of_all_digits)
  then show ?thesis
    using st assms(3) by (simp add: py_int_def)
qed

lemma py_int_fmt04d:
  assumes "length (dec (nat \<bar>n\<bar>)) \<le> int_max_str_digits"
  shows "py_int (fmt04d n) = Some n"
proof (cases "n < 0")
  case True
  have "length (zero_pad 3 (dec (nat (- n)))) \<le> int_max_str_digits"
    using assms True by (simp add: length_zero_pad int_max_str_digits_def)
  then have "py_int (CHR ''-'' # zero_pad 3 (dec (nat (- n)))) = Some (- int (nat (- n)))"
    by (simp add: py_int_minus_digits zero_pad_not_empty zero_pad_all_digits zero_pad_value)
  with True show ?thesis by (simp add: fmt04d_def)
next
  case False
  have "length (zero_pad 4 (dec (nat n))) \<le> int_max_str_digits"
    using assms False by (simp add: length_zero_pad int_max_str_digits_def)
  then have "py_int (zero_pad 4 (dec (nat n))) = Some (int (nat n))"
    by (simp add: py_int_digits zero_pad_not_empty zero_pad_all_digits zero_pad_value)
  with False show ?thesis by (simp add: fmt04d_def)
qed

lemma fmt04d_value: "0 \<le> n \<Longrightarrow> digits_value (map digit_val (fmt04d n)) = nat n"
  by (simp add: fmt04d_def zero_pad_value)

lemma fmt04d_inj: "0 \<le> a \<Longrightarrow> 0 \<le> b \<Longrightarrow> fmt04d a = fmt04d b \<Longrightarrow> a = b"
  using fmt04d_value [of a] fmt04d_value [of b] by simp

lemma length_dec_mono: "a \<le> b \<Longrightarrow> length (dec a) \<le> length (dec b)"
proof (induction b arbitrary: a rule: dec.induct)
  case (1 b)
  show ?case
  proof (cases "a < 10")
    case True
    then have "length (dec a) = 1" by (subst dec.simps) simp
    moreover have "1 \<le> length (dec b)"
      using dec_not_empty [of b] by (cases "dec b") simp_all
    ultimately show ?thesis by simp
  next
    case False
    with 1(2) have b: "\<not> b < 10" by simp
    have "a div 10 \<le> b div 10" using 1(2) by (rule div_le_mono)
    with 1(1) b have "length (dec (a div 10)) \<le> length (dec (b div 10))" by simp
    moreover have "length (dec a) = Suc (length (dec (a div 10)))"
      using False by (subst dec.simps) simp
    moreover have "length (dec b) = Suc (length (dec (b div 10)))"
      using b by (subst dec.simps) simp
    ultimately show ?thesis by simp
  qed
qed

lemma length_dec_bound: "0 < k \<Longrightarrow> n < 10 ^ k \<Longrightarrow> length (dec n) \<le> k"
proof (induction n arbitrary: k rule: dec.induct)
  case (1 n)
  show ?case
  proof (cases "n < 10")
    case True
    then have "length (dec n) = 1" by (subst dec.simps) simp
    with 1(2) show ?thesis by simp
  next
    case False
    obtain j where k: "k = Suc j" using 1(2) by (cases k) auto
    have j: "0 < j"
    proof (rule ccontr)
      assume "\<not> 0 < j"
      with k 1(3) False show False by simp
    qed
    have "n div 10 < 10 ^ j"
      using 1(3) k by (simp add: less_mult_imp_div_less mult.commute)
    with 1(1) False j have "length (dec (n div 10)) \<le> j" by simp
    moreover have "length (dec n) = Suc (length (dec (n div 10)))"
      using False by (subst dec.simps) simp
    ultimately show ?thesis using k by simp
  qed
qed

lemma small_below_limit: "(n::nat) < 10 \<Longrightarrow> n < 10 ^ int_max_str_digits"
proof -
  assume "n < 10"
  then have "n < 10 ^ 1" by simp
  also have "(10::nat) ^ 1 \<le> 10 ^ int_max_str_digits"
    by (rule power_increasing) (simp_all add: int_max_str_digits_def)
  finally show ?thesis .
qed

lemma length_dec_limit: "n < 10 ^ int_max_str_digits \<Longrightarrow> length (dec n) \<le> int_max_str_digits"
proof -
  assume a: "n < 10 ^ int_max_str_digits"
  have "0 < int_max_str_digits" by (simp add: int_max_str_digits_def)
  then show ?thesis using a by (rule length_dec_bound)
qed

lemma get_last_snoc:
  "invoices db = rows @ [r] \<Longrightarrow>
   get_last_invoice_no_from_db db = (case py_int (row_invoice_no r) of Some n \<Rightarrow> n | None \<Rightarrow> 0)"
  by (cases rows) (simp_all add: get_last_invoice_no_from_db_def)

lemma get_last_empty: "invoices db = [] \<Longrightarrow> get_last_invoice_no_from_db db = 0"
  by (simp add: get_last_invoice_no_from_db_def)

lemma fmt04d_one: "fmt04d 1 = ''0001''"
  by code_simp

section \<open>One run of the generation\<close>

text \<open>
  The run either stops at a warning, leaving the database as it was, or appends the
  assembled document under the number of the sequence generator.
\<close>

lemma render_form_vendor: "vendor (fst (render_form w d)) = w_vendor w"
  by (simp add: render_form_def Let_def split: prod.splits option.splits)


lemma generate_clicked_rejected:
  assumes "item_validation (items (fst (render_form w (ss_invoice_data s)))) = Some wn"
  shows "generate_clicked dumps loads ts today w s db =
    (Rejected wn,
     s\<lparr>ss_invoice_data := fst (render_form w (ss_invoice_data s)), ss_last_invoice_info := None\<rparr>,
     db)"
  using assms unfolding generate_clicked_def item_validation_def
  by (auto simp: Let_def split: prod.splits if_splits)

lemma generate_clicked_accepted:
  assumes "item_validation (items (fst (render_form w (ss_invoice_data s)))) = None"
  shows "\<exists>out s'.
    generate_clicked dumps loads ts today w s db =
      (out, s',
       log_invoice dumps ts (vendor_name (w_vendor w)) (next_invoice_no db)
         (snd (render_form w (ss_invoice_data s)) - w_discount_amount w)
         (ss_invoice_data s') (ss_user_id s) db) \<and>
    (\<forall>wn. out \<noteq> Rejected wn) \<and>
    (\<forall>no gt qr. out = Generated no gt qr \<longrightarrow>
       no = next_invoice_no db \<and>
       gt = snd (render_form w (ss_invoice_data s)) - w_discount_amount w \<and>
       ss_last_invoice_info s' = Some no) \<and>
    ss_user_id s' = ss_user_id s \<and>
    ss_invoice_data s' =
      (fst (render_form w (ss_invoice_data s)))
        \<lparr>invoice_info := Some \<lparr>info_invoice_no = next_invoice_no db, info_date = today,
                                info_timestamp = ts\<rparr>,
         subtotal := Some (snd (render_form w (ss_invoice_data s))),
         discount := Some (w_discount_amount w),
         grand_total := Some (snd (render_form w (ss_invoice_data s)) - w_discount_amount w)\<rparr>"
  using assms render_form_vendor [of w "ss_invoice_data s"]
  unfolding generate_clicked_def item_validation_def next_invoice_no_def
  by (auto simp: Let_def split: prod.splits if_splits sum.splits option.splits)


section \<open>Sequence generator\<close>

text \<open>
  Claim C5. With no summary row in the store, or when the number of the most recent
  summary row is not an integer for \<^verbatim>\<open>int\<close>, the next number is \<^verbatim>\<open>0001\<close>, and a
  generation that succeeds issues it: numbering starts from 1 instead of failing.
\<close>

theorem first_number_is_0001:
  "invoices db = [] \<or> py_int (row_invoice_no (last (invoices db))) = None \<Longrightarrow>
   next_invoice_no db = ''0001'' \<and>
   (generate_clicked dumps loads ts today w s db = (Generated no gt qr, s', db') \<longrightarrow>
      no = ''0001'')"
proof -
  assume a: "invoices db = [] \<or> py_int (row_invoice_no (last (invoices db))) = None"
  have "get_last_invoice_no_from_db db = 0"
    using a by (cases "invoices db") (auto simp: get_last_invoice_no_from_db_def)
  then have n: "next_invoice_no db = ''0001''"
    by (simp add: next_invoice_no_def fmt04d_one)
  have "no = ''0001''"
    if g: "generate_clicked dumps loads ts today w s db = (Generated no gt qr, s', db')"
  proof (cases "item_validation (items (fst (render_form w (ss_invoice_data s))))")
    case None
    from generate_clicked_accepted [OF None, of dumps loads ts today db] g n
    show ?thesis by auto
  next
    case (Some wn)
    from generate_clicked_rejected [OF Some, of dumps loads ts today db] g
    show ?thesis by simp
  qed
  with n show ?thesis by simp
qed

text \<open>The empty store, and a store whose most recent number is \<^verbatim>\<open>abc\<close>.\<close>

theorem first_number_is_0001_witness:
  "next_invoice_no (empty_database :: (real, real invoice_data) database) = ''0001'' \<and>
   py_int (row_invoice_no (last (invoices store_0001_abc))) = None \<and>
   next_invoice_no store_0001_abc = ''0001''"
proof -
  have e: "invoices (empty_database :: (real, real invoice_data) database) = []"
    by (simp add: empty_database_def)
  have "row_invoice_no (last (invoices store_0001_abc)) = ''abc''"
    by (simp add: store_0001_abc_def log_invoice_def empty_database_def)
  moreover have "py_int ''abc'' = None"
    by code_simp
  ultimately have a: "py_int (row_invoice_no (last (invoices store_0001_abc))) = None"
    by simp
  show ?thesis
    using first_number_is_0001 [of "empty_database :: (real, real invoice_data) database"] e
      first_number_is_0001 [of store_0001_abc] a
    by simp
qed

text \<open>A generation that succeeds issues the number of the sequence generator.\<close>

lemma generated_number:
  assumes "generate_clicked dumps loads ts today w s db = (Generated no gt qr, s', db')"
  shows "no = next_invoice_no db"
proof (cases "item_validation (items (fst (render_form w (ss_invoice_data s))))")
  case None
  from generate_clicked_accepted [OF None, of dumps loads ts today db] assms
  show ?thesis by auto
next
  case (Some wn)
  from generate_clicked_rejected [OF Some, of dumps loads ts today db] assms
  show ?thesis by simp
qed

text \<open>
  In a store whose numbers were issued in sequence, row \<open>i\<close> (from 0) carries the number
  \<open>i + 1\<close>, \<^verbatim>\<open>int\<close> reads it back, and the next number is the count of rows plus 1.
\<close>

lemma in_sequence_nth:
  assumes "issued_in_sequence db" "i < length (invoices db)"
  shows "row_invoice_no (invoices db ! i) = fmt04d (int (Suc i))"
proof -
  have "map row_invoice_no (invoices db) ! i =
        map (\<lambda>k. fmt04d (int k)) [1..<Suc (length (invoices db))] ! i"
    using assms(1) by (simp add: issued_in_sequence_def)
  then show ?thesis
    using assms(2) by (simp del: upt_Suc)
qed

lemma in_sequence_parse:
  assumes "issued_in_sequence db" "length (invoices db) < 10 ^ int_max_str_digits"
    and "i < length (invoices db)"
  shows "py_int (row_invoice_no (invoices db ! i)) = Some (int (Suc i))"
proof -
  have "Suc i < 10 ^ int_max_str_digits"
    using assms(2,3) by simp
  then have "length (dec (Suc i)) \<le> int_max_str_digits"
    by (rule length_dec_limit)
  moreover have "nat \<bar>int (Suc i)\<bar> = Suc i"
    by simp
  ultimately have "py_int (fmt04d (int (Suc i))) = Some (int (Suc i))"
    by (intro py_int_fmt04d) (simp only:)
  then show ?thesis
    using in_sequence_nth [OF assms(1,3)] by simp
qed

lemma in_sequence_next:
  assumes "issued_in_sequence db" "length (invoices db) < 10 ^ int_max_str_digits"
  shows "next_invoice_no db = fmt04d (int (length (invoices db)) + 1)"
proof (cases "invoices db" rule: rev_cases)
  case Nil
  then show ?thesis
    by (simp add: next_invoice_no_def get_last_empty)
next
  case (snoc rows r)
  then have "invoices db ! length rows = r" by simp
  moreover have "py_int (row_invoice_no (invoices db ! length rows)) = Some (int (Suc (length rows)))"
    using snoc by (intro in_sequence_parse [OF assms]) simp
  ultimately have "py_int (row_invoice_no r) = Some (int (Suc (length rows)))" by simp
  then show ?thesis
    using snoc by (simp add: next_invoice_no_def get_last_snoc [OF snoc])
qed

text \<open>
  Claim C1, as amended. In every store with a summary row, the next number is the number
  of the most recently inserted summary row (the last one in id order, whoever owns it)
  read by \<^verbatim>\<open>int\<close>, plus 1, in the format \<^verbatim>\<open>04d\<close>; after \<^verbatim>\<open>0007\<close> it is
  \<^verbatim>\<open>0008\<close>; a generation that succeeds issues that number. The most recent number is
  the highest one whenever the numbers were issued in sequence (fewer than \<open>10 ^ 4300\<close>
  of them): every stored number then reads as at most the count of rows, and the most
  recent one as the count itself.
\<close>

theorem next_number_follows_last_row:
  assumes "invoices db = rows @ [r]"
  shows "(py_int (row_invoice_no r) = Some n \<longrightarrow> next_invoice_no db = fmt04d (n + 1)) \<and>
    (row_invoice_no r = ''0007'' \<longrightarrow> next_invoice_no db = ''0008'') \<and>
    (generate_clicked dumps loads ts today w s db = (Generated no gt qr, s', db') \<longrightarrow>
       no = next_invoice_no db) \<and>
    (issued_in_sequence db \<and> length (invoices db) < 10 ^ int_max_str_digits \<longrightarrow>
       py_int (row_invoice_no r) = Some (int (length (invoices db))) \<and>
       (\<forall>x \<in> set (invoices db). \<exists>k. py_int (row_invoice_no x) = Some k \<and>
          k \<le> int (length (invoices db))))"
proof -
  have a: "next_invoice_no db = fmt04d (n + 1)" if "py_int (row_invoice_no r) = Some n" for n
    using that by (simp add: next_invoice_no_def get_last_snoc [OF assms])
  have "py_int ''0007'' = Some 7" by code_simp
  moreover have "fmt04d (7 + 1) = ''0008''" by code_simp
  ultimately have b: "row_invoice_no r = ''0007'' \<longrightarrow> next_invoice_no db = ''0008''"
    using a [of 7] by simp
  have c: "py_int (row_invoice_no r) = Some (int (length (invoices db))) \<and>
       (\<forall>x \<in> set (invoices db). \<exists>k. py_int (row_invoice_no x) = Some k \<and>
          k \<le> int (length (invoices db)))"
    if q: "issued_in_sequence db" and l: "length (invoices db) < 10 ^ int_max_str_digits"
  proof
    have "py_int (row_invoice_no (invoices db ! length rows)) = Some (int (Suc (length rows)))"
      using assms by (intro in_sequence_parse [OF q l]) simp
    then show "py_int (row_invoice_no r) = Some (int (length (invoices db)))"
      using assms by simp
    show "\<forall>x \<in> set (invoices db). \<exists>k. py_int (row_invoice_no x) = Some k \<and>
          k \<le> int (length (invoices db))"
    proof
      fix x assume "x \<in> set (invoices db)"
      then obtain i where i: "i < length (invoices db)" "invoices db ! i = x"
        by (auto simp: in_set_conv_nth)
      from in_sequence_parse [OF q l i(1)] i show
        "\<exists>k. py_int (row_invoice_no x) = Some k \<and> k \<le> int (length (invoices db))"
        by auto
    qed
  qed
  show ?thesis
    using a b c generated_number [of dumps loads ts today w s db no gt qr s' db'] by blast
qed

text \<open>
  The claim as stated fails where the most recent number is not the highest: with
  \<^verbatim>\<open>0007\<close> stored before \<^verbatim>\<open>0003\<close>, the highest number is 7 and the next number
  is \<^verbatim>\<open>0004\<close>, not \<^verbatim>\<open>0008\<close>.
\<close>

theorem next_number_not_highest:
  "map row_invoice_no (invoices store_0007_0003) = [''0007'', ''0003''] \<and>
   map (\<lambda>r. py_int (row_invoice_no r)) (invoices store_0007_0003) = [Some 7, Some 3] \<and>
   next_invoice_no store_0007_0003 = ''0004'' \<and>
   next_invoice_no store_0007_0003 \<noteq> ''0008''"
proof -
  have i: "invoices store_0007_0003 =
    [\<lparr>row_timestamp = ''2024-01-01T10:00:00+00:00'', row_vendor = ''Corner Shop'',
      row_invoice_no = ''0007'', row_total = 10, row_user_id = ''shop1''\<rparr>] @
    [\<lparr>row_timestamp = ''2024-01-02T10:00:00+00:00'', row_vendor = ''Corner Shop'',
      row_invoice_no = ''0003'', row_total = 5, row_user_id = ''shop1''\<rparr>]"
    by (simp add: store_0007_0003_def log_invoice_def empty_database_def)
  have p7: "py_int ''0007'' = Some 7" by code_simp
  have p3: "py_int ''0003'' = Some 3" by code_simp
  have f: "fmt04d (3 + 1) = ''0004''" by code_simp
  have "next_invoice_no store_0007_0003 = ''0004''"
    using p3 f by (simp add: next_invoice_no_def get_last_snoc [OF i])
  then show ?thesis
    using i p7 p3 by simp
qed


text \<open>The store with \<^verbatim>\<open>0001\<close> and \<^verbatim>\<open>0002\<close>: the next number is \<^verbatim>\<open>0003\<close>.\<close>

theorem next_number_follows_last_row_witness:
  "invoices store_two_owners =
     butlast (invoices store_two_owners) @ [last (invoices store_two_owners)] \<and>
   py_int (row_invoice_no (last (invoices store_two_owners))) = Some 2 \<and>
   next_invoice_no store_two_owners = ''0003'' \<and>
   issued_in_sequence store_two_owners \<and>
   length (invoices store_two_owners) < 10 ^ int_max_str_digits"
proof -
  have i: "invoices store_two_owners =
     butlast (invoices store_two_owners) @ [last (invoices store_two_owners)]"
    by (simp add: store_two_owners_def log_invoice_def empty_database_def)
  have "row_invoice_no (last (invoices store_two_owners)) = ''0002''"
    by (simp add: store_two_owners_def log_invoice_def empty_database_def)
  moreover have "py_int ''0002'' = Some 2" by code_simp
  ultimately have p: "py_int (row_invoice_no (last (invoices store_two_owners))) = Some 2"
    by simp
  have f: "fmt04d (2 + 1) = ''0003''" by code_simp
  have "length (invoices store_two_owners) = 2"
    by (simp add: store_two_owners_def log_invoice_def empty_database_def)
  then have l: "length (invoices store_two_owners) < 10 ^ int_max_str_digits"
    by (simp add: small_below_limit)
  have q: "issued_in_sequence store_two_owners"
    by code_simp
  show ?thesis
    using next_number_follows_last_row [OF i, of 2] i p f l q by simp
qed

section \<open>Document assembler\<close>

lemma incomplete_item_exists_iff:
  "incomplete_item_exists its \<longleftrightarrow>
   (\<exists>it \<in> set its. item_name it \<noteq> [] \<and> (item_quantity it \<le> 0 \<or> item_price it \<le> 0))"
  by (induction its) auto

lemma is_valid_items_iff:
  "is_valid_items its \<longleftrightarrow>
   (\<exists>it \<in> set its. item_name it \<noteq> [] \<and> 0 < item_quantity it \<and> 0 < item_price it)"
  by (simp add: is_valid_items_def list_ex_iff)

lemma item_validation_None:
  "item_validation its = None \<longleftrightarrow> \<not> incomplete_item_exists its \<and> is_valid_items its"
  by (simp add: item_validation_def)

lemma generate_rejected_iff:
  "(\<exists>wn. fst (generate_clicked dumps loads ts today w s db) = Rejected wn) \<longleftrightarrow>
   item_validation (items (fst (render_form w (ss_invoice_data s)))) \<noteq> None"
proof (cases "item_validation (items (fst (render_form w (ss_invoice_data s))))")
  case None
  from generate_clicked_accepted [OF None, of dumps loads ts today db]
  show ?thesis using None by auto
next
  case (Some wn)
  from generate_clicked_rejected [OF Some, of dumps loads ts today db]
  show ?thesis using Some by auto
qed

text \<open>The drawn forms of the examples.\<close>

lemma render_pen_bag:
  "render_form pen_bag_form two_item_draft =
     (two_item_draft\<lparr>vendor := shop_vendor,
        items := [\<lparr>item_name = ''Pen'', item_quantity = 2, item_price = 10,
                   item_line_total = Some 20\<rparr>,
                  \<lparr>item_name = ''Bag'', item_quantity = 1, item_price = 5,
                   item_line_total = Some 5\<rparr>]\<rparr>, 25)"
  by (simp add: render_form_def pen_bag_form_def two_item_draft_def Let_def)

lemma render_free_bag:
  "render_form free_bag_form two_item_draft =
     (two_item_draft\<lparr>vendor := shop_vendor,
        items := [\<lparr>item_name = ''Pen'', item_quantity = 1, item_price = 10,
                   item_line_total = Some 10\<rparr>,
                  \<lparr>item_name = ''Bag'', item_quantity = 1, item_price = 0,
                   item_line_total = Some 0\<rparr>]\<rparr>, 10)"
  by (simp add: render_form_def free_bag_form_def two_item_draft_def Let_def)

lemma render_untouched:
  "render_form untouched_form two_item_draft =
     (two_item_draft\<lparr>vendor := shop_vendor,
        items := [\<lparr>item_name = [], item_quantity = 1, item_price = 0,
                   item_line_total = Some 0\<rparr>,
                  \<lparr>item_name = [], item_quantity = 1, item_price = 0,
                   item_line_total = Some 0\<rparr>]\<rparr>, 0)"
  by (simp add: render_form_def untouched_form_def two_item_draft_def Let_def)

text \<open>
  Claim C2, as amended. The assembler accepts an item list if and only if at least one
  item has a name, a quantity above 0 and a price above 0, and no item with a name has a
  quantity or a price that is at most 0; otherwise the run is rejected with a warning. A
  list in which every item has quantity 0 or price 0 is rejected, named or not. The list
  checked is the one of the draft after the form is drawn.
\<close>

theorem item_list_accepted_iff:
  fixes its :: "('n::{zero,preorder}) item list"
    and w :: "('m::{zero,ord,plus,times,minus}) form"
  shows "(item_validation its = None \<longleftrightarrow>
      (\<exists>it \<in> set its. item_name it \<noteq> [] \<and> 0 < item_quantity it \<and> 0 < item_price it) \<and>
      (\<forall>it \<in> set its. item_name it \<noteq> [] \<longrightarrow>
         \<not> item_quantity it \<le> 0 \<and> \<not> item_price it \<le> 0)) \<and>
    ((\<forall>it \<in> set its. item_quantity it = 0 \<or> item_price it = 0) \<longrightarrow>
       item_validation its \<noteq> None) \<and>
    ((\<exists>wn. fst (generate_clicked dumps loads ts today w s db) = Rejected wn) \<longleftrightarrow>
       item_validation (items (fst (render_form w (ss_invoice_data s)))) \<noteq> None)"
proof -
  have a: "item_validation its = None \<longleftrightarrow>
      (\<exists>it \<in> set its. item_name it \<noteq> [] \<and> 0 < item_quantity it \<and> 0 < item_price it) \<and>
      (\<forall>it \<in> set its. item_name it \<noteq> [] \<longrightarrow>
         \<not> item_quantity it \<le> 0 \<and> \<not> item_price it \<le> 0)"
    unfolding item_validation_None incomplete_item_exists_iff is_valid_items_iff by blast
  have b: "item_validation its \<noteq> None"
    if z: "\<forall>it \<in> set its. item_quantity it = 0 \<or> item_price it = 0"
  proof -
    have "\<not> is_valid_items its"
      unfolding is_valid_items_iff using z by auto
    then show ?thesis by (simp add: item_validation_None)
  qed
  show ?thesis
    using a b generate_rejected_iff [of dumps loads ts today w s db] by blast
qed

text \<open>
  The claim as stated fails for a list with a valid item beside a named item whose price
  was left at 0.0, which the widget allows: the first check rejects it.
\<close>

theorem valid_item_yet_rejected:
  "map (\<lambda>it. (item_name it, item_quantity it, item_price it))
     (items (fst (render_form free_bag_form (ss_invoice_data shop1_session)))) =
     [(''Pen'', 1, 10), (''Bag'', 1, 0)] \<and>
   is_valid_items (items (fst (render_form free_bag_form (ss_invoice_data shop1_session)))) \<and>
   item_validation (items (fst (render_form free_bag_form (ss_invoice_data shop1_session)))) =
     Some Item_validation_warning \<and>
   fst (generate_clicked id Some ''2024-01-03T10:00:00+00:00'' ''2024-01-03'' free_bag_form
          shop1_session (empty_database :: (real, real invoice_data) database)) =
     Rejected Item_validation_warning"
proof -
  have r: "items (fst (render_form free_bag_form (ss_invoice_data shop1_session))) =
     [\<lparr>item_name = ''Pen'', item_quantity = 1, item_price = 10, item_line_total = Some 10\<rparr>,
      \<lparr>item_name = ''Bag'', item_quantity = 1, item_price = 0, item_line_total = Some 0\<rparr>]"
    by (simp add: shop1_session_def render_free_bag)
  have v: "item_validation (items (fst (render_form free_bag_form (ss_invoice_data shop1_session)))) =
     Some Item_validation_warning"
    unfolding r by (simp add: item_validation_def)
  have "is_valid_items (items (fst (render_form free_bag_form (ss_invoice_data shop1_session))))"
    unfolding r by (simp add: is_valid_items_def)
  then show ?thesis
    using r v by (simp add: generate_clicked_rejected [OF v])
qed

text \<open>The pen and the bag are accepted; the untouched form is rejected.\<close>

theorem item_list_accepted_iff_witness:
  "item_validation (items (fst (render_form pen_bag_form (ss_invoice_data shop1_session)))) = None \<and>
   item_validation (items (fst (render_form untouched_form (ss_invoice_data shop1_session)))) \<noteq> None \<and>
   fst (generate_clicked id Some ''2024-01-03T10:00:00+00:00'' ''2024-01-03'' untouched_form
          shop1_session (empty_database :: (real, real invoice_data) database)) =
     Rejected Validation_warning"
proof -
  have p: "items (fst (render_form pen_bag_form (ss_invoice_data shop1_session))) =
     [\<lparr>item_name = ''Pen'', item_quantity = 2, item_price = 10, item_line_total = Some 20\<rparr>,
      \<lparr>item_name = ''Bag'', item_quantity = 1, item_price = 5, item_line_total = Some 5\<rparr>]"
    by (simp add: shop1_session_def render_pen_bag)
  have u: "items (fst (render_form untouched_form (ss_invoice_data shop1_session))) =
     [\<lparr>item_name = [], item_quantity = 1, item_price = 0, item_line_total = Some 0\<rparr>,
      \<lparr>item_name = [], item_quantity = 1, item_price = 0, item_line_total = Some 0\<rparr>]"
    by (simp add: shop1_session_def render_untouched)
  have a: "item_validation (items (fst (render_form pen_bag_form (ss_invoice_data shop1_session)))) = None"
    using item_list_accepted_iff
      [of "items (fst (render_form pen_bag_form (ss_invoice_data shop1_session)))" id Some
        "''2024-01-03T10:00:00+00:00''" "''2024-01-03''" pen_bag_form shop1_session
        "empty_database :: (real, real invoice_data) database"]
    unfolding p by simp
  have b: "item_validation (items (fst (render_form untouched_form (ss_invoice_data shop1_session)))) \<noteq> None"
    using item_list_accepted_iff
      [of "items (fst (render_form untouched_form (ss_invoice_data shop1_session)))" id Some
        "''2024-01-03T10:00:00+00:00''" "''2024-01-03''" untouched_form shop1_session
        "empty_database :: (real, real invoice_data) database"]
    unfolding u by simp
  have "item_validation (items (fst (render_form untouched_form (ss_invoice_data shop1_session)))) =
     Some Validation_warning"
    unfolding u by (simp add: item_validation_def is_valid_items_def)
  then have "fst (generate_clicked id Some ''2024-01-03T10:00:00+00:00'' ''2024-01-03'' untouched_form
          shop1_session (empty_database :: (real, real invoice_data) database)) =
     Rejected Validation_warning"
    by (simp add: generate_clicked_rejected)
  with a b show ?thesis by simp
qed

text \<open>
  Claim C8. When the item validation fails, on either warning, the run of the generation
  returns the database it was given: no row is written to \<^verbatim>\<open>invoices\<close> or to
  \<^verbatim>\<open>invoices_full\<close>. Every failing validation ends in such a rejection.
\<close>

theorem rejection_writes_nothing:
  "(generate_clicked dumps loads ts today w s db = (Rejected wn, s', db') \<longrightarrow>
      db' = db \<and> invoices db' = invoices db \<and> invoices_full db' = invoices_full db) \<and>
   (item_validation (items (fst (render_form w (ss_invoice_data s)))) \<noteq> None \<longrightarrow>
      (\<exists>wn s'. generate_clicked dumps loads ts today w s db = (Rejected wn, s', db)))"
proof (cases "item_validation (items (fst (render_form w (ss_invoice_data s))))")
  case None
  from generate_clicked_accepted [OF None, of dumps loads ts today db]
  show ?thesis using None by auto
next
  case (Some wn')
  from generate_clicked_rejected [OF Some, of dumps loads ts today db]
  show ?thesis using Some by auto
qed

text \<open>
  Both warnings on a store with two documents: the price of the bag left at 0.0, and the
  untouched form.
\<close>

theorem rejection_writes_nothing_witness:
  "generate_clicked id Some ''2024-01-03T10:00:00+00:00'' ''2024-01-03'' free_bag_form
     shop1_session store_two_owners =
     (Rejected Item_validation_warning,
      shop1_session\<lparr>ss_invoice_data := fst (render_form free_bag_form (ss_invoice_data shop1_session)),
        ss_last_invoice_info := None\<rparr>,
      store_two_owners) \<and>
   snd (snd (generate_clicked id Some ''2024-01-03T10:00:00+00:00'' ''2024-01-03'' untouched_form
     shop1_session store_two_owners)) = store_two_owners \<and>
   fst (generate_clicked id Some ''2024-01-03T10:00:00+00:00'' ''2024-01-03'' untouched_form
     shop1_session store_two_owners) = Rejected Validation_warning"
proof -
  have f: "item_validation (items (fst (render_form free_bag_form (ss_invoice_data shop1_session)))) =
     Some Item_validation_warning"
    by (simp add: shop1_session_def render_free_bag item_validation_def)
  have u: "item_validation (items (fst (render_form untouched_form (ss_invoice_data shop1_session)))) =
     Some Validation_warning"
    by (simp add: shop1_session_def render_untouched item_validation_def is_valid_items_def)
  have g: "generate_clicked id Some ''2024-01-03T10:00:00+00:00'' ''2024-01-03'' untouched_form
     shop1_session store_two_owners =
     (Rejected Validation_warning,
      shop1_session\<lparr>ss_invoice_data := fst (render_form untouched_form (ss_invoice_data shop1_session)),
        ss_last_invoice_info := None\<rparr>,
      store_two_owners)"
    by (rule generate_clicked_rejected [OF u])
  have "snd (snd (generate_clicked id Some ''2024-01-03T10:00:00+00:00'' ''2024-01-03'' untouched_form
     shop1_session store_two_owners)) = store_two_owners"
    using rejection_writes_nothing
      [of id Some "''2024-01-03T10:00:00+00:00''" "''2024-01-03''" untouched_form shop1_session
        store_two_owners Validation_warning
        "shop1_session\<lparr>ss_invoice_data := fst (render_form untouched_form (ss_invoice_data shop1_session)),
           ss_last_invoice_info := None\<rparr>" store_two_owners] g
    by simp
  then show ?thesis
    using g generate_clicked_rejected [OF f, of id Some "''2024-01-03T10:00:00+00:00''"
        "''2024-01-03''" store_two_owners]
    by simp
qed

section \<open>Totals of an assembled document\<close>

text \<open>
  The loop over the items leaves in every item the product of its quantity and its price,
  and adds these products to the subtotal from left to right.
\<close>

lemma items_loop_totals:
  "items_loop w i its acc = (its', t) \<Longrightarrow>
   t = foldl (+) acc (map (\<lambda>it. item_quantity it * item_price it) its') \<and>
   (\<forall>it \<in> set its'. item_line_total it = Some (item_quantity it * item_price it)) \<and>
   length its' = length its"
proof (induction its arbitrary: i acc its' t)
  case Nil
  then show ?case by simp
next
  case (Cons item rest)
  obtain rest' t' where r:
    "items_loop w (Suc i) rest (acc + w_item_quantity w i * w_item_price w i) = (rest', t')"
    by fastforce
  from Cons.IH [OF r] Cons.prems r show ?case
    by (auto simp: Let_def)
qed

lemma render_form_totals:
  "snd (render_form w d) =
     foldl (+) 0 (map (\<lambda>it. item_quantity it * item_price it) (items (fst (render_form w d)))) \<and>
   (\<forall>it \<in> set (items (fst (render_form w d))).
      item_line_total it = Some (item_quantity it * item_price it))"
proof -
  obtain d2 where d2: "d2 = (case w_client w of None \<Rightarrow> d\<lparr>doc_type := w_doc_type w, vendor := w_vendor w\<rparr>
    | Some c \<Rightarrow> d\<lparr>doc_type := w_doc_type w, vendor := w_vendor w, client := c\<rparr>)"
    by simp
  obtain its' t where l: "items_loop w 0 (items d2) 0 = (its', t)"
    by fastforce
  have "render_form w d = (d2\<lparr>items := its'\<rparr>, t)"
    using l d2 by (simp add: render_form_def Let_def split: option.splits)
  then show ?thesis
    using items_loop_totals [OF l] by simp
qed

text \<open>
  Claim C3. In every document a generation assembles, the subtotal is the sum, from left
  to right and starting at 0, of quantity times price over the items, each item carrying
  that product as its line total; the grand total is the subtotal minus the discount,
  with no clamping; the summary row and the success message carry the same grand total.
  Two items, 2 at 10.0 and 1 at 5.0, with a discount of 3.0 give the subtotal 25.0 and
  the grand total 22.0.
\<close>

theorem document_totals:
  "(generate_clicked dumps loads ts today w s db = (Generated no gt qr, s', db') \<longrightarrow>
      subtotal (ss_invoice_data s') =
        Some (foldl (+) 0 (map (\<lambda>it. item_quantity it * item_price it)
                (items (ss_invoice_data s')))) \<and>
      (\<forall>it \<in> set (items (ss_invoice_data s')).
         item_line_total it = Some (item_quantity it * item_price it)) \<and>
      discount (ss_invoice_data s') = Some (w_discount_amount w) \<and>
      grand_total (ss_invoice_data s') =
        Some (foldl (+) 0 (map (\<lambda>it. item_quantity it * item_price it)
                (items (ss_invoice_data s'))) - w_discount_amount w) \<and>
      grand_total (ss_invoice_data s') = Some gt \<and>
      db' = log_invoice dumps ts (vendor_name (vendor (ss_invoice_data s'))) no gt
              (ss_invoice_data s') (ss_user_id s) db) \<and>
   subtotal (ss_invoice_data (fst (snd (generate_clicked id Some ''2024-01-03T10:00:00+00:00''
      ''2024-01-03'' pen_bag_form shop1_session
      (empty_database :: (real, real invoice_data) database))))) = Some 25 \<and>
   grand_total (ss_invoice_data (fst (snd (generate_clicked id Some ''2024-01-03T10:00:00+00:00''
      ''2024-01-03'' pen_bag_form shop1_session
      (empty_database :: (real, real invoice_data) database))))) = Some 22"
proof -
  have a: "subtotal (ss_invoice_data s') =
        Some (foldl (+) 0 (map (\<lambda>it. item_quantity it * item_price it)
                (items (ss_invoice_data s')))) \<and>
      (\<forall>it \<in> set (items (ss_invoice_data s')).
         item_line_total it = Some (item_quantity it * item_price it)) \<and>
      discount (ss_invoice_data s') = Some (w_discount_amount w) \<and>
      grand_total (ss_invoice_data s') =
        Some (foldl (+) 0 (map (\<lambda>it. item_quantity it * item_price it)
                (items (ss_invoice_data s'))) - w_discount_amount w) \<and>
      grand_total (ss_invoice_data s') = Some gt \<and>
      db' = log_invoice dumps ts (vendor_name (vendor (ss_invoice_data s'))) no gt
              (ss_invoice_data s') (ss_user_id s) db"
    if g: "generate_clicked dumps loads ts today w s db = (Generated no gt qr, s', db')"
  proof (cases "item_validation (items (fst (render_form w (ss_invoice_data s))))")
    case None
    from generate_clicked_accepted [OF None, of dumps loads ts today db] g
      render_form_totals [of w "ss_invoice_data s"] render_form_vendor [of w "ss_invoice_data s"]
    show ?thesis by auto
  next
    case (Some wn)
    from generate_clicked_rejected [OF Some, of dumps loads ts today db] g
    show ?thesis by simp
  qed
  have v: "item_validation (items (fst (render_form pen_bag_form (ss_invoice_data shop1_session)))) = None"
    by (simp add: shop1_session_def render_pen_bag item_validation_def is_valid_items_def)
  have dc: "w_discount_amount pen_bag_form = 3"
    by (simp add: pen_bag_form_def)
  from generate_clicked_accepted [OF v, of id Some "''2024-01-03T10:00:00+00:00''" "''2024-01-03''"
      "empty_database :: (real, real invoice_data) database"]
  have "subtotal (ss_invoice_data (fst (snd (generate_clicked id Some ''2024-01-03T10:00:00+00:00''
      ''2024-01-03'' pen_bag_form shop1_session
      (empty_database :: (real, real invoice_data) database))))) = Some 25 \<and>
   grand_total (ss_invoice_data (fst (snd (generate_clicked id Some ''2024-01-03T10:00:00+00:00''
      ''2024-01-03'' pen_bag_form shop1_session
      (empty_database :: (real, real invoice_data) database))))) = Some 22"
    by (auto simp: shop1_session_def render_pen_bag dc)
  with a show ?thesis by blast
qed


text \<open>
  The example of the claim on an empty store, and the same items with a discount of 30.0:
  the grand total is then \<open>- 5\<close>.
\<close>

lemma next_invoice_no_empty: "next_invoice_no empty_database = ''0001''"
  by (simp add: next_invoice_no_def get_last_invoice_no_from_db_def empty_database_def fmt04d_one)

theorem document_totals_witness:
  "generate_clicked id Some ''2024-01-03T10:00:00+00:00'' ''2024-01-03'' pen_bag_form
     shop1_session (empty_database :: (real, real invoice_data) database) =
     (Generated ''0001'' 22
        (Qr_invoice (ss_invoice_data (fst (snd (generate_clicked id Some
           ''2024-01-03T10:00:00+00:00'' ''2024-01-03'' pen_bag_form shop1_session
           (empty_database :: (real, real invoice_data) database)))))),
      fst (snd (generate_clicked id Some ''2024-01-03T10:00:00+00:00'' ''2024-01-03''
        pen_bag_form shop1_session (empty_database :: (real, real invoice_data) database))),
      snd (snd (generate_clicked id Some ''2024-01-03T10:00:00+00:00'' ''2024-01-03''
        pen_bag_form shop1_session (empty_database :: (real, real invoice_data) database)))) \<and>
   discount (ss_invoice_data (fst (snd (generate_clicked id Some ''2024-01-03T10:00:00+00:00''
      ''2024-01-03'' pen_bag_form shop1_session
      (empty_database :: (real, real invoice_data) database))))) = Some 3 \<and>
   grand_total (ss_invoice_data (fst (snd (generate_clicked id Some ''2024-01-03T10:00:00+00:00''
      ''2024-01-03'' pen_bag_form shop1_session
      (empty_database :: (real, real invoice_data) database))))) = Some 22 \<and>
   grand_total (ss_invoice_data (fst (snd (generate_clicked id Some ''2024-01-03T10:00:00+00:00''
      ''2024-01-03'' (pen_bag_form\<lparr>w_discount_amount := 30\<rparr>) shop1_session
      (empty_database :: (real, real invoice_data) database))))) = Some (- 5)"
proof -
  have r: "render_form pen_bag_form (ss_invoice_data shop1_session) =
     (two_item_draft\<lparr>vendor := shop_vendor,
        items := [\<lparr>item_name = ''Pen'', item_quantity = 2, item_price = 10,
                   item_line_total = Some 20\<rparr>,
                  \<lparr>item_name = ''Bag'', item_quantity = 1, item_price = 5,
                   item_line_total = Some 5\<rparr>]\<rparr>, 25)"
    by (simp add: shop1_session_def render_pen_bag)
  have dc: "w_discount_amount pen_bag_form = 3"
    by (simp add: pen_bag_form_def)
  have n: "fmt04d (get_last_invoice_no_from_db (empty_database :: (real, real invoice_data) database) + 1)
     = ''0001''"
    using next_invoice_no_empty by (simp add: next_invoice_no_def)
  have e: "invoices_full (empty_database :: (real, real invoice_data) database) = []"
    by (simp add: empty_database_def)
  have g: "generate_clicked id Some ''2024-01-03T10:00:00+00:00'' ''2024-01-03'' pen_bag_form
     shop1_session (empty_database :: (real, real invoice_data) database) =
     (Generated ''0001'' 22
        (Qr_invoice (ss_invoice_data (fst (snd (generate_clicked id Some
           ''2024-01-03T10:00:00+00:00'' ''2024-01-03'' pen_bag_form shop1_session
           (empty_database :: (real, real invoice_data) database)))))),
      fst (snd (generate_clicked id Some ''2024-01-03T10:00:00+00:00'' ''2024-01-03''
        pen_bag_form shop1_session (empty_database :: (real, real invoice_data) database))),
      snd (snd (generate_clicked id Some ''2024-01-03T10:00:00+00:00'' ''2024-01-03''
        pen_bag_form shop1_session (empty_database :: (real, real invoice_data) database))))"
    unfolding generate_clicked_def
    by (simp add: r dc n e Let_def is_valid_items_def log_invoice_def get_full_invoice_data_def)
  have r30: "render_form (pen_bag_form\<lparr>w_discount_amount := 30\<rparr>) (ss_invoice_data shop1_session) =
     render_form pen_bag_form (ss_invoice_data shop1_session)"
    unfolding r
    by (simp add: render_form_def pen_bag_form_def shop1_session_def two_item_draft_def Let_def)
  have v30: "item_validation (items (fst (render_form (pen_bag_form\<lparr>w_discount_amount := 30\<rparr>)
      (ss_invoice_data shop1_session)))) = None"
    by (simp add: r30 r item_validation_def is_valid_items_def)
  from generate_clicked_accepted [OF v30, of id Some "''2024-01-03T10:00:00+00:00''" "''2024-01-03''"
      "empty_database :: (real, real invoice_data) database"]
  have g30: "grand_total (ss_invoice_data (fst (snd (generate_clicked id Some ''2024-01-03T10:00:00+00:00''
      ''2024-01-03'' (pen_bag_form\<lparr>w_discount_amount := 30\<rparr>) shop1_session
      (empty_database :: (real, real invoice_data) database))))) = Some (- 5)"
    by (auto simp: r30 r)
  note d = document_totals [of id Some "''2024-01-03T10:00:00+00:00''" "''2024-01-03''"
      pen_bag_form shop1_session "empty_database :: (real, real invoice_data) database"
      "''0001''" 22
      "Qr_invoice (ss_invoice_data (fst (snd (generate_clicked id Some
           ''2024-01-03T10:00:00+00:00'' ''2024-01-03'' pen_bag_form shop1_session
           (empty_database :: (real, real invoice_data) database)))))"
      "fst (snd (generate_clicked id Some ''2024-01-03T10:00:00+00:00'' ''2024-01-03''
        pen_bag_form shop1_session (empty_database :: (real, real invoice_data) database)))"
      "snd (snd (generate_clicked id Some ''2024-01-03T10:00:00+00:00'' ''2024-01-03''
        pen_bag_form shop1_session (empty_database :: (real, real invoice_data) database)))"]
  have b: "discount (ss_invoice_data (fst (snd (generate_clicked id Some ''2024-01-03T10:00:00+00:00''
      ''2024-01-03'' pen_bag_form shop1_session
      (empty_database :: (real, real invoice_data) database))))) = Some 3"
    using d g unfolding dc by blast
  have c: "grand_total (ss_invoice_data (fst (snd (generate_clicked id Some ''2024-01-03T10:00:00+00:00''
      ''2024-01-03'' pen_bag_form shop1_session
      (empty_database :: (real, real invoice_data) database))))) = Some 22"
    using d g by blast
  show ?thesis
    by (intro conjI g b c g30)
qed

section \<open>Record store\<close>

text \<open>The stores the application writes grow by appends under the next number only.\<close>

lemma app_database:
  "fst (snd (app dumps loads a s db)) = db \<or>
   (\<exists>ts v t d. fst (snd (app dumps loads a s db)) =
      log_invoice dumps ts v (next_invoice_no db) t d (ss_user_id s) db)"
proof (cases a)
  case (Generate_document w ts today)
  show ?thesis
  proof (cases "item_validation (items (fst (render_form w (ss_invoice_data s))))")
    case None
    from generate_clicked_accepted [OF None, of dumps loads ts today db]
    obtain out s' where "generate_clicked dumps loads ts today w s db =
      (out, s',
       log_invoice dumps ts (vendor_name (w_vendor w)) (next_invoice_no db)
         (snd (render_form w (ss_invoice_data s)) - w_discount_amount w)
         (ss_invoice_data s') (ss_user_id s) db)"
      by blast
    then have "fst (snd (app dumps loads a s db)) =
       log_invoice dumps ts (vendor_name (w_vendor w)) (next_invoice_no db)
         (snd (render_form w (ss_invoice_data s)) - w_discount_amount w)
         (ss_invoice_data s') (ss_user_id s) db"
      using Generate_document by (simp add: app_def)
    then show ?thesis by blast
  next
    case (Some wn)
    from generate_clicked_rejected [OF Some, of dumps loads ts today db]
    show ?thesis using Generate_document by (simp add: app_def)
  qed
next
  case (Load_document no)
  then show ?thesis by (simp add: app_def split: sum.splits)
next
  case View_documents
  then show ?thesis by (simp add: app_def)
qed

lemma app_runs_invariant:
  assumes "P db"
    and "\<And>db ts v t d uid. P db \<Longrightarrow> P (log_invoice dumps ts v (next_invoice_no db) t d uid db)"
  shows "P (app_runs dumps loads steps db)"
  using assms(1)
proof (induction steps arbitrary: db)
  case Nil
  then show ?case by (simp add: app_runs_def)
next
  case (Cons step steps)
  obtain s a where sa: "step = (s, a)" by (cases step)
  have "P (fst (snd (app dumps loads a s db)))"
    using app_database [of dumps loads a s db] Cons.prems assms(2) by auto
  from Cons.IH [OF this] show ?case
    by (simp add: app_runs_def sa)
qed

lemma app_user_id: "ss_user_id (fst (app dumps loads a s db)) = ss_user_id s"
proof (cases a)
  case (Generate_document w ts today)
  show ?thesis
  proof (cases "item_validation (items (fst (render_form w (ss_invoice_data s))))")
    case None
    from generate_clicked_accepted [OF None, of dumps loads ts today db]
    obtain out s' db' where "generate_clicked dumps loads ts today w s db = (out, s', db')"
      and "ss_user_id s' = ss_user_id s"
      by blast
    then show ?thesis using Generate_document by (simp add: app_def)
  next
    case (Some wn)
    from generate_clicked_rejected [OF Some, of dumps loads ts today db]
    show ?thesis using Generate_document by (simp add: app_def)
  qed
next
  case (Load_document no)
  then show ?thesis
    by (auto simp: app_def load_clicked_def split: sum.splits option.splits if_splits)
next
  case View_documents
  then show ?thesis by (simp add: app_def)
qed

lemma app_listing:
  "snd (snd (app dumps loads a s db)) = [] \<or>
   snd (snd (app dumps loads a s db)) =
     get_invoices_from_db (ss_user_id s) (fst (snd (app dumps loads a s db)))"
proof (cases a)
  case (Generate_document w ts today)
  then show ?thesis
    using app_user_id [of dumps loads a s db]
    by (auto simp: app_def split: prod.splits)
next
  case (Load_document no)
  then show ?thesis
    using app_user_id [of dumps loads a s db]
    by (auto simp: app_def split: sum.splits)
next
  case View_documents
  then show ?thesis by (simp add: app_def)
qed

text \<open>
  Claim C6. For every owner id and every store, each row the listing returns is a row of
  the summary table with that owner id, so no row of another owner is among them; every
  row of that owner is listed; and the rows a run of the application shows are rows of
  the owner of its session.
\<close>

theorem listing_only_own_rows:
  "(\<forall>r \<in> set (get_invoices_from_db uid db). row_user_id r = uid \<and> r \<in> set (invoices db)) \<and>
   \<not> (\<exists>r \<in> set (get_invoices_from_db uid db). row_user_id r \<noteq> uid) \<and>
   (\<forall>r \<in> set (invoices db). row_user_id r = uid \<longrightarrow> r \<in> set (get_invoices_from_db uid db)) \<and>
   (\<forall>r \<in> set (snd (snd (app dumps loads a s db))). row_user_id r = ss_user_id s)"
proof -
  have "\<forall>r \<in> set (snd (snd (app dumps loads a s db))). row_user_id r = ss_user_id s"
    using app_listing [of dumps loads a s db]
    by (auto simp: get_invoices_from_db_def)
  then show ?thesis
    by (auto simp: get_invoices_from_db_def)
qed

text \<open>In the store of two owners, each owner is shown its own row only.\<close>

theorem listing_only_own_rows_witness:
  "map row_invoice_no (invoices store_two_owners) = [''0001'', ''0002''] \<and>
   map row_user_id (invoices store_two_owners) = [''shop1'', ''shop2''] \<and>
   map row_invoice_no (get_invoices_from_db ''shop1'' store_two_owners) = [''0001''] \<and>
   map row_user_id (get_invoices_from_db ''shop1'' store_two_owners) = [''shop1''] \<and>
   map row_invoice_no (get_invoices_from_db ''shop2'' store_two_owners) = [''0002''] \<and>
   get_invoices_from_db ''shop3'' store_two_owners = []"
proof -
  have i: "invoices store_two_owners =
    [\<lparr>row_timestamp = ''2024-01-01T10:00:00+00:00'', row_vendor = ''Corner Shop'',
      row_invoice_no = ''0001'', row_total = 10, row_user_id = ''shop1''\<rparr>,
     \<lparr>row_timestamp = ''2024-01-02T10:00:00+00:00'', row_vendor = ''Corner Shop'',
      row_invoice_no = ''0002'', row_total = 5, row_user_id = ''shop2''\<rparr>]"
    by (simp add: store_two_owners_def log_invoice_def empty_database_def)
  have "map row_user_id (get_invoices_from_db ''shop1'' store_two_owners) = [''shop1'']"
    using listing_only_own_rows [of "''shop1''" store_two_owners]
    by (simp add: get_invoices_from_db_def i)
  then show ?thesis
    by (simp add: get_invoices_from_db_def i)
qed

text \<open>Retrieval looks at the first row with the number and the owner asked for.\<close>

lemma filter_first:
  assumes "filter P xs = r # rs"
  shows "r \<in> set xs \<and> P r"
proof -
  have "r \<in> set (filter P xs)"
    unfolding assms by simp
  then show ?thesis by simp
qed

lemma get_full_None_iff:
  "get_full_invoice_data loads no uid db = Inr None \<longleftrightarrow>
   \<not> (\<exists>r \<in> set (invoices_full db). full_invoice_no r = no \<and> full_user_id r = uid)"
proof (cases "filter (\<lambda>r. full_invoice_no r = no \<and> full_user_id r = uid) (invoices_full db)")
  case Nil
  then show ?thesis
    by (auto simp: get_full_invoice_data_def filter_empty_conv)
next
  case (Cons r rs)
  from filter_first [OF this]
  have "\<exists>r \<in> set (invoices_full db). full_invoice_no r = no \<and> full_user_id r = uid"
    by blast
  moreover have "get_full_invoice_data loads no uid db \<noteq> Inr None"
    using Cons by (simp add: get_full_invoice_data_def split: option.splits)
  ultimately show ?thesis by simp
qed

lemma get_full_Some:
  assumes "get_full_invoice_data loads no uid db = Inr (Some d)"
  shows "\<exists>r \<in> set (invoices_full db).
    full_invoice_no r = no \<and> full_user_id r = uid \<and> loads (full_invoice_json r) = Some d"
proof (cases "filter (\<lambda>r. full_invoice_no r = no \<and> full_user_id r = uid) (invoices_full db)")
  case Nil
  then show ?thesis
    using assms by (simp add: get_full_invoice_data_def)
next
  case (Cons r rs)
  from filter_first [OF this]
  have "r \<in> set (invoices_full db) \<and> full_invoice_no r = no \<and> full_user_id r = uid"
    by blast
  moreover have "loads (full_invoice_json r) = Some d"
    using assms Cons by (simp add: get_full_invoice_data_def split: option.splits)
  ultimately show ?thesis by blast
qed

lemma get_full_decodable:
  assumes "decodable loads db"
    and "\<exists>r \<in> set (invoices_full db). full_invoice_no r = no \<and> full_user_id r = uid"
  shows "\<exists>d. get_full_invoice_data loads no uid db = Inr (Some d)"
proof (cases "filter (\<lambda>r. full_invoice_no r = no \<and> full_user_id r = uid) (invoices_full db)")
  case Nil
  then show ?thesis
    using assms(2) by (auto simp: filter_empty_conv)
next
  case (Cons r rs)
  from filter_first [OF this] have "r \<in> set (invoices_full db)"
    by blast
  then have "loads (full_invoice_json r) \<noteq> None"
    using assms(1) by (auto simp: decodable_def list_all_iff)
  then show ?thesis
    using Cons by (auto simp: get_full_invoice_data_def)
qed

lemma get_after_log_existing:
  assumes "\<exists>r \<in> set (invoices_full db). full_invoice_no r = no \<and> full_user_id r = uid"
  shows "get_full_invoice_data loads no uid (log_invoice dumps ts v no' t d uid' db) =
    get_full_invoice_data loads no uid db"
proof (cases "filter (\<lambda>r. full_invoice_no r = no \<and> full_user_id r = uid) (invoices_full db)")
  case Nil
  then show ?thesis
    using assms by (auto simp: filter_empty_conv)
next
  case (Cons r rs)
  then show ?thesis
    by (simp add: get_full_invoice_data_def log_invoice_def)
qed

lemma get_after_log_fresh:
  assumes "\<not> (\<exists>r \<in> set (invoices_full db). full_invoice_no r = no \<and> full_user_id r = uid)"
  shows "get_full_invoice_data loads no uid (log_invoice dumps ts v no t d uid db) =
    (case loads (dumps d) of None \<Rightarrow> Inl JSONDecodeError | Some d' \<Rightarrow> Inr (Some d'))"
proof -
  have "filter (\<lambda>r. full_invoice_no r = no \<and> full_user_id r = uid) (invoices_full db) = []"
    using assms by (auto simp: filter_empty_conv)
  then show ?thesis
    by (simp add: get_full_invoice_data_def log_invoice_def)
qed

lemma decodable_log_invoice:
  "decodable loads db \<Longrightarrow> loads (dumps d) \<noteq> None \<Longrightarrow>
   decodable loads (log_invoice dumps ts v no t d uid db)"
  by (simp add: decodable_def log_invoice_def)

lemma app_runs_decodable:
  assumes "\<forall>d. loads (dumps d) \<noteq> None"
  shows "decodable loads (app_runs dumps loads steps empty_database)"
proof (rule app_runs_invariant)
  show "decodable loads empty_database"
    by (simp add: decodable_def empty_database_def)
next
  fix db :: "('a, 'b) database" and ts v t d uid
  assume "decodable loads db"
  then show "decodable loads (log_invoice dumps ts v (next_invoice_no db) t d uid db)"
    using assms by (simp add: decodable_log_invoice)
qed

text \<open>
  Claim C10. Retrieval returns \<^verbatim>\<open>None\<close> exactly when no stored row has both the given
  number and the given owner id, and a document it returns is the one serialized in such
  a row. In a store whose texts \<^verbatim>\<open>json.loads\<close> accepts (every store the application
  writes with a \<^verbatim>\<open>json.dumps\<close> whose output it accepts), retrieval returns a document if
  and only if such a row exists. A number stored under other owners only is not found.
\<close>

theorem retrieval_matches_number_and_owner:
  "(get_full_invoice_data loads no uid db = Inr None \<longleftrightarrow>
      \<not> (\<exists>r \<in> set (invoices_full db). full_invoice_no r = no \<and> full_user_id r = uid)) \<and>
   (get_full_invoice_data loads no uid db = Inr (Some d) \<longrightarrow>
      (\<exists>r \<in> set (invoices_full db). full_invoice_no r = no \<and> full_user_id r = uid \<and>
         loads (full_invoice_json r) = Some d)) \<and>
   (decodable loads db \<longrightarrow>
      ((\<exists>d'. get_full_invoice_data loads no uid db = Inr (Some d')) \<longleftrightarrow>
       (\<exists>r \<in> set (invoices_full db). full_invoice_no r = no \<and> full_user_id r = uid))) \<and>
   ((\<forall>d'. loads (dumps d') \<noteq> None) \<longrightarrow>
      decodable loads (app_runs dumps loads steps empty_database)) \<and>
   ((\<forall>r \<in> set (invoices_full db). full_invoice_no r = no \<longrightarrow> full_user_id r \<noteq> uid) \<longrightarrow>
      get_full_invoice_data loads no uid db = Inr None)"
proof -
  have a: "get_full_invoice_data loads no uid db = Inr (Some d) \<longrightarrow>
      (\<exists>r \<in> set (invoices_full db). full_invoice_no r = no \<and> full_user_id r = uid \<and>
         loads (full_invoice_json r) = Some d)"
    using get_full_Some [of loads no uid db d] by blast
  have b: "decodable loads db \<longrightarrow>
      ((\<exists>d'. get_full_invoice_data loads no uid db = Inr (Some d')) \<longleftrightarrow>
       (\<exists>r \<in> set (invoices_full db). full_invoice_no r = no \<and> full_user_id r = uid))"
    using get_full_decodable [of loads db no uid] get_full_Some [of loads no uid db] by blast
  have c: "(\<forall>r \<in> set (invoices_full db). full_invoice_no r = no \<longrightarrow> full_user_id r \<noteq> uid) \<longrightarrow>
      get_full_invoice_data loads no uid db = Inr None"
    unfolding get_full_None_iff by blast
  show ?thesis
    using get_full_None_iff [of loads no uid db] a b c
      app_runs_decodable [of loads dumps steps] by blast
qed

text \<open>
  In the store with \<^verbatim>\<open>0001\<close> of the first shop and \<^verbatim>\<open>0002\<close> of the second, the first
  shop finds its document under \<^verbatim>\<open>0001\<close> and the second shop finds nothing there.
\<close>

theorem retrieval_matches_number_and_owner_witness:
  "decodable Some store_two_owners \<and>
   get_full_invoice_data Some ''0001'' ''shop1'' store_two_owners = Inr (Some (pen_doc ''0001'')) \<and>
   get_full_invoice_data Some ''0001'' ''shop2'' store_two_owners = Inr None \<and>
   get_full_invoice_data Some ''0002'' ''shop2'' store_two_owners = Inr (Some (bag_doc ''0002''))"
proof -
  have f: "invoices_full store_two_owners =
    [\<lparr>full_timestamp = ''2024-01-01T10:00:00+00:00'', full_invoice_no = ''0001'',
      full_invoice_json = pen_doc ''0001'', full_user_id = ''shop1''\<rparr>,
     \<lparr>full_timestamp = ''2024-01-02T10:00:00+00:00'', full_invoice_no = ''0002'',
      full_invoice_json = bag_doc ''0002'', full_user_id = ''shop2''\<rparr>]"
    by (simp add: store_two_owners_def log_invoice_def empty_database_def)
  have d: "decodable Some store_two_owners"
    by (simp add: decodable_def f)
  have "get_full_invoice_data Some ''0001'' ''shop2'' store_two_owners = Inr None"
    using retrieval_matches_number_and_owner [of Some "''0001''" "''shop2''" store_two_owners]
    by (simp add: f)
  moreover have "\<exists>d'. get_full_invoice_data Some ''0001'' ''shop1'' store_two_owners = Inr (Some d')"
    using retrieval_matches_number_and_owner [of Some "''0001''" "''shop1''" store_two_owners] d
    by (simp add: f)
  ultimately show ?thesis
    using d by (simp add: get_full_invoice_data_def f)
qed

text \<open>
  In a store whose numbers were issued in sequence, the next number is held by no row.
\<close>

lemma next_number_fresh:
  assumes "issued_in_sequence db" "length (invoices db) < 10 ^ int_max_str_digits"
  shows "next_invoice_no db \<notin> set (map row_invoice_no (invoices db)) \<and>
    next_invoice_no db \<notin> set (map full_invoice_no (invoices_full db))"
proof -
  have n: "next_invoice_no db = fmt04d (int (length (invoices db)) + 1)"
    using assms by (rule in_sequence_next)
  have "next_invoice_no db \<notin> set (map row_invoice_no (invoices db))"
  proof
    assume "next_invoice_no db \<in> set (map row_invoice_no (invoices db))"
    then obtain i where i: "i < length (invoices db)"
      and "row_invoice_no (invoices db ! i) = next_invoice_no db"
      by (auto simp: in_set_conv_nth)
    then have "fmt04d (int (Suc i)) = fmt04d (int (length (invoices db)) + 1)"
      using in_sequence_nth [OF assms(1) i] n by simp
    then have "int (Suc i) = int (length (invoices db)) + 1"
      by (intro fmt04d_inj) simp_all
    with i show False by simp
  qed
  moreover have "map full_invoice_no (invoices_full db) = map row_invoice_no (invoices db)"
    using assms(1) by (simp add: issued_in_sequence_def)
  ultimately show ?thesis by simp
qed

text \<open>
  Claim C4, as amended. For a document that \<^verbatim>\<open>json.loads\<close> reads back from the output
  of \<^verbatim>\<open>json.dumps\<close>, and an owner id: storing the document and then retrieving it by its
  number and the same owner id returns that document (so the same items, totals, vendor
  and client) provided no full-document row with that number and owner id was stored
  before, as is the case for the number of the sequence generator in a store whose
  numbers were issued in sequence. When such a row was stored before, retrieval returns
  what it returned before the new document was stored.
\<close>

theorem store_then_retrieve:
  assumes "loads (dumps d) = Some d"
  shows "(\<not> (\<exists>r \<in> set (invoices_full db). full_invoice_no r = no \<and> full_user_id r = uid) \<longrightarrow>
      get_full_invoice_data loads no uid (log_invoice dumps ts v no t d uid db) = Inr (Some d)) \<and>
    ((\<exists>r \<in> set (invoices_full db). full_invoice_no r = no \<and> full_user_id r = uid) \<longrightarrow>
      get_full_invoice_data loads no uid (log_invoice dumps ts v no t d uid db) =
      get_full_invoice_data loads no uid db) \<and>
    (issued_in_sequence db \<and> length (invoices db) < 10 ^ int_max_str_digits \<longrightarrow>
      get_full_invoice_data loads (next_invoice_no db) uid
        (log_invoice dumps ts v (next_invoice_no db) t d uid db) = Inr (Some d))"
proof -
  have a: "get_full_invoice_data loads no uid (log_invoice dumps ts v no t d uid db) = Inr (Some d)"
    if "\<not> (\<exists>r \<in> set (invoices_full db). full_invoice_no r = no \<and> full_user_id r = uid)" for no
    using get_after_log_fresh [OF that, of loads dumps ts v t d] assms by simp
  have "get_full_invoice_data loads (next_invoice_no db) uid
        (log_invoice dumps ts v (next_invoice_no db) t d uid db) = Inr (Some d)"
    if "issued_in_sequence db" "length (invoices db) < 10 ^ int_max_str_digits"
  proof (rule a)
    show "\<not> (\<exists>r \<in> set (invoices_full db).
      full_invoice_no r = next_invoice_no db \<and> full_user_id r = uid)"
      using next_number_fresh [OF that] by (force simp: image_iff)
  qed
  then show ?thesis
    using a [of no] get_after_log_existing [of db no uid loads dumps ts v no t d uid] by blast
qed

text \<open>
  The claim as stated fails when the number is already stored under the owner. In the
  store with \<^verbatim>\<open>0001\<close> of the first shop followed by \<^verbatim>\<open>abc\<close>, the next number is
  \<^verbatim>\<open>0001\<close> again; a document the first shop stores under it is not the one retrieval
  returns, which has other items and another grand total.
\<close>

theorem stored_document_not_retrieved:
  "next_invoice_no store_0001_abc = ''0001'' \<and>
   get_full_invoice_data Some ''0001'' ''shop1''
     (log_invoice id ''2024-01-03T10:00:00+00:00'' ''Corner Shop'' ''0001'' 5 (bag_doc ''0001'')
        ''shop1'' store_0001_abc) = Inr (Some (pen_doc ''0001'')) \<and>
   map item_name (items (pen_doc ''0001'')) = [''Pen''] \<and>
   map item_name (items (bag_doc ''0001'')) = [''Bag''] \<and>
   grand_total (pen_doc ''0001'') = Some 10 \<and>
   grand_total (bag_doc ''0001'') = Some 5"
proof -
  have i: "invoices store_0001_abc =
    [\<lparr>row_timestamp = ''2024-01-01T10:00:00+00:00'', row_vendor = ''Corner Shop'',
      row_invoice_no = ''0001'', row_total = 10, row_user_id = ''shop1''\<rparr>] @
    [\<lparr>row_timestamp = ''2024-01-02T10:00:00+00:00'', row_vendor = ''Corner Shop'',
      row_invoice_no = ''abc'', row_total = 5, row_user_id = ''shop2''\<rparr>]"
    by (simp add: store_0001_abc_def log_invoice_def empty_database_def)
  have "py_int ''abc'' = None" by code_simp
  then have n: "next_invoice_no store_0001_abc = ''0001''"
    by (simp add: next_invoice_no_def get_last_snoc [OF i] fmt04d_one)
  have f: "invoices_full store_0001_abc =
    [\<lparr>full_timestamp = ''2024-01-01T10:00:00+00:00'', full_invoice_no = ''0001'',
      full_invoice_json = pen_doc ''0001'', full_user_id = ''shop1''\<rparr>,
     \<lparr>full_timestamp = ''2024-01-02T10:00:00+00:00'', full_invoice_no = ''abc'',
      full_invoice_json = bag_doc ''abc'', full_user_id = ''shop2''\<rparr>]"
    by (simp add: store_0001_abc_def log_invoice_def empty_database_def)
  have g: "get_full_invoice_data Some ''0001'' ''shop1''
     (log_invoice id ''2024-01-03T10:00:00+00:00'' ''Corner Shop'' ''0001'' 5 (bag_doc ''0001'')
        ''shop1'' store_0001_abc) = Inr (Some (pen_doc ''0001''))"
    by (simp add: get_full_invoice_data_def log_invoice_def f)
  show ?thesis
    using n g by (simp add: pen_doc_def bag_doc_def)
qed

text \<open>
  In the store with \<^verbatim>\<open>0001\<close> and \<^verbatim>\<open>0002\<close>, a document stored under the next number
  \<^verbatim>\<open>0003\<close> is the one retrieved.
\<close>

theorem store_then_retrieve_witness:
  "Some (id (bag_doc ''0003'')) = Some (bag_doc ''0003'') \<and>
   issued_in_sequence store_two_owners \<and>
   length (invoices store_two_owners) < 10 ^ int_max_str_digits \<and>
   next_invoice_no store_two_owners = ''0003'' \<and>
   get_full_invoice_data Some ''0003'' ''shop1''
     (log_invoice id ''2024-01-03T10:00:00+00:00'' ''Corner Shop'' ''0003'' 5 (bag_doc ''0003'')
        ''shop1'' store_two_owners) = Inr (Some (bag_doc ''0003''))"
proof -
  have c: "Some (id (bag_doc ''0003'')) = Some (bag_doc ''0003'')"
    by simp
  have q: "issued_in_sequence store_two_owners"
    by code_simp
  have "length (invoices store_two_owners) = 2"
    by (simp add: store_two_owners_def log_invoice_def empty_database_def)
  then have l: "length (invoices store_two_owners) < 10 ^ int_max_str_digits"
    by (simp add: small_below_limit)
  have "fmt04d (int 2 + 1) = ''0003''" by code_simp
  then have n: "next_invoice_no store_two_owners = ''0003''"
    using in_sequence_next [OF q l] \<open>length (invoices store_two_owners) = 2\<close> by simp
  have "get_full_invoice_data Some ''0003'' ''shop1''
     (log_invoice id ''2024-01-03T10:00:00+00:00'' ''Corner Shop'' ''0003'' 5 (bag_doc ''0003'')
        ''shop1'' store_two_owners) = Inr (Some (bag_doc ''0003''))"
    using store_then_retrieve [where loads = Some and dumps = id and d = "bag_doc ''0003''"
        and db = store_two_owners and uid = "''shop1''" and ts = "''2024-01-03T10:00:00+00:00''"
        and v = "''Corner Shop''" and t = 5 and no = "''0003''", OF c] q l n
    by simp
  with c q l n show ?thesis by simp
qed

text \<open>An append adds one row to each table, and keeps the tables paired.\<close>

lemma rows_paired_log_invoice:
  "rows_paired db \<Longrightarrow> rows_paired (log_invoice dumps ts v no t d uid db)"
  by (simp add: rows_paired_def log_invoice_def)

lemma app_runs_rows_paired: "rows_paired (app_runs dumps loads steps empty_database)"
proof (rule app_runs_invariant)
  show "rows_paired empty_database"
    by (simp add: rows_paired_def empty_database_def)
next
  fix db :: "('a, 'b) database" and ts v t d uid
  assume "rows_paired db"
  then show "rows_paired (log_invoice dumps ts v (next_invoice_no db) t d uid db)"
    by (rule rows_paired_log_invoice)
qed

lemma rows_paired_iff:
  assumes "rows_paired db"
  shows "(\<exists>r \<in> set (invoices db).
      row_invoice_no r = no \<and> row_timestamp r = ts \<and> row_user_id r = uid) \<longleftrightarrow>
    (\<exists>f \<in> set (invoices_full db).
      full_invoice_no f = no \<and> full_timestamp f = ts \<and> full_user_id f = uid)"
proof -
  have "(\<exists>r \<in> set (invoices db).
      row_invoice_no r = no \<and> row_timestamp r = ts \<and> row_user_id r = uid) \<longleftrightarrow>
    (no, ts, uid) \<in> set (map (\<lambda>r. (row_invoice_no r, row_timestamp r, row_user_id r)) (invoices db))"
    by (auto simp: image_iff)
  moreover have "(\<exists>f \<in> set (invoices_full db).
      full_invoice_no f = no \<and> full_timestamp f = ts \<and> full_user_id f = uid) \<longleftrightarrow>
    (no, ts, uid) \<in> set (map (\<lambda>r. (full_invoice_no r, full_timestamp r, full_user_id r))
      (invoices_full db))"
    by (auto simp: image_iff)
  ultimately show ?thesis
    using assms by (simp only: rows_paired_def)
qed

text \<open>
  Claim C9. Every append is one step that adds one summary row and one full-document row
  with the same number, timestamp and owner id. In the append of a generation, the total
  of the summary row is the grand total of the document whose serialization is stored,
  hence of the document \<^verbatim>\<open>json.loads\<close> reads from the stored text when it reads back
  what \<^verbatim>\<open>json.dumps\<close> wrote. So in every store the application writes, starting from
  the empty one, a summary row with a number, timestamp and owner id exists if and only
  if a full-document row with them exists.
\<close>

theorem append_writes_both_rows:
  "invoices (log_invoice dumps ts v no t d uid db) =
     invoices db @ [\<lparr>row_timestamp = ts, row_vendor = v, row_invoice_no = no, row_total = t,
                      row_user_id = uid\<rparr>] \<and>
   invoices_full (log_invoice dumps ts v no t d uid db) =
     invoices_full db @ [\<lparr>full_timestamp = ts, full_invoice_no = no,
                           full_invoice_json = dumps d, full_user_id = uid\<rparr>] \<and>
   (generate_clicked dumps loads ts' today w s db = (out, s', db') \<and> (\<forall>wn. out \<noteq> Rejected wn) \<longrightarrow>
      (\<exists>row frow.
         invoices db' = invoices db @ [row] \<and>
         invoices_full db' = invoices_full db @ [frow] \<and>
         row_invoice_no row = full_invoice_no frow \<and>
         row_timestamp row = full_timestamp frow \<and>
         row_user_id row = full_user_id frow \<and>
         row_user_id row = ss_user_id s \<and>
         full_invoice_json frow = dumps (ss_invoice_data s') \<and>
         grand_total (ss_invoice_data s') = Some (row_total row) \<and>
         (loads (dumps (ss_invoice_data s')) = Some (ss_invoice_data s') \<longrightarrow>
            map_option grand_total (loads (full_invoice_json frow)) = Some (Some (row_total row))))) \<and>
   rows_paired (app_runs dumps loads steps empty_database) \<and>
   (rows_paired db \<longrightarrow>
      ((\<exists>r \<in> set (invoices db).
          row_invoice_no r = no \<and> row_timestamp r = ts \<and> row_user_id r = uid) \<longleftrightarrow>
       (\<exists>f \<in> set (invoices_full db).
          full_invoice_no f = no \<and> full_timestamp f = ts \<and> full_user_id f = uid)))"
proof -
  have g: "\<exists>row frow.
         invoices db' = invoices db @ [row] \<and>
         invoices_full db' = invoices_full db @ [frow] \<and>
         row_invoice_no row = full_invoice_no frow \<and>
         row_timestamp row = full_timestamp frow \<and>
         row_user_id row = full_user_id frow \<and>
         row_user_id row = ss_user_id s \<and>
         full_invoice_json frow = dumps (ss_invoice_data s') \<and>
         grand_total (ss_invoice_data s') = Some (row_total row) \<and>
         (loads (dumps (ss_invoice_data s')) = Some (ss_invoice_data s') \<longrightarrow>
            map_option grand_total (loads (full_invoice_json frow)) = Some (Some (row_total row)))"
    if c: "generate_clicked dumps loads ts' today w s db = (out, s', db')"
      and n: "\<forall>wn. out \<noteq> Rejected wn"
  proof (cases "item_validation (items (fst (render_form w (ss_invoice_data s))))")
    case None
    from generate_clicked_accepted [OF None, of dumps loads ts' today db] c
    have d: "db' = log_invoice dumps ts' (vendor_name (w_vendor w)) (next_invoice_no db)
         (snd (render_form w (ss_invoice_data s)) - w_discount_amount w)
         (ss_invoice_data s') (ss_user_id s) db"
      and t: "grand_total (ss_invoice_data s') =
         Some (snd (render_form w (ss_invoice_data s)) - w_discount_amount w)"
      by auto
    show ?thesis
      unfolding d using t by (simp add: log_invoice_def)
  next
    case (Some wn)
    from generate_clicked_rejected [OF Some, of dumps loads ts' today db] c n
    show ?thesis by simp
  qed
  show ?thesis
    using g app_runs_rows_paired [of dumps loads steps] rows_paired_iff [of db no ts uid]
    by (simp add: log_invoice_def)
qed


text \<open>
  The first shop generates the pen and the bag on the store holding \<^verbatim>\<open>0001\<close> and
  \<^verbatim>\<open>0002\<close>: both tables get a third row, numbered \<^verbatim>\<open>0003\<close>, with the total 22.
\<close>

theorem append_writes_both_rows_witness:
  "fst (generate_clicked id Some ''2024-01-03T10:00:00+00:00'' ''2024-01-03'' pen_bag_form
      shop1_session store_two_owners) \<noteq> Rejected Item_validation_warning \<and>
   fst (generate_clicked id Some ''2024-01-03T10:00:00+00:00'' ''2024-01-03'' pen_bag_form
      shop1_session store_two_owners) \<noteq> Rejected Validation_warning \<and>
   rows_paired store_two_owners \<and>
   length (invoices (snd (snd (generate_clicked id Some ''2024-01-03T10:00:00+00:00'' ''2024-01-03'' pen_bag_form
      shop1_session store_two_owners)))) = 3 \<and>
   length (invoices_full (snd (snd (generate_clicked id Some ''2024-01-03T10:00:00+00:00'' ''2024-01-03'' pen_bag_form
      shop1_session store_two_owners)))) = 3 \<and>
   row_invoice_no (last (invoices (snd (snd (generate_clicked id Some ''2024-01-03T10:00:00+00:00'' ''2024-01-03'' pen_bag_form
      shop1_session store_two_owners))))) = ''0003'' \<and>
   full_invoice_no (last (invoices_full (snd (snd (generate_clicked id Some ''2024-01-03T10:00:00+00:00'' ''2024-01-03'' pen_bag_form
      shop1_session store_two_owners))))) = ''0003'' \<and>
   row_total (last (invoices (snd (snd (generate_clicked id Some ''2024-01-03T10:00:00+00:00'' ''2024-01-03'' pen_bag_form
      shop1_session store_two_owners))))) = 22 \<and>
   map_option grand_total (Some (full_invoice_json (last (invoices_full (snd (snd (generate_clicked id Some ''2024-01-03T10:00:00+00:00'' ''2024-01-03'' pen_bag_form
      shop1_session store_two_owners)))))))
     = Some (Some 22)"
proof -
  have v: "item_validation (items (fst (render_form pen_bag_form (ss_invoice_data shop1_session)))) = None"
    by (simp add: shop1_session_def render_pen_bag item_validation_def is_valid_items_def)
  have r: "snd (render_form pen_bag_form (ss_invoice_data shop1_session)) = 25"
    by (simp add: shop1_session_def render_pen_bag)
  have dc: "w_discount_amount pen_bag_form = 3"
    by (simp add: pen_bag_form_def)
  have q: "issued_in_sequence store_two_owners"
    by code_simp
  have l2: "length (invoices store_two_owners) = 2"
    by (simp add: store_two_owners_def log_invoice_def empty_database_def)
  then have l: "length (invoices store_two_owners) < 10 ^ int_max_str_digits"
    by (simp add: small_below_limit)
  have lf: "length (invoices_full store_two_owners) = 2"
    by (simp add: store_two_owners_def log_invoice_def empty_database_def)
  have "fmt04d (int 2 + 1) = ''0003''" by code_simp
  then have n: "next_invoice_no store_two_owners = ''0003''"
    using in_sequence_next [OF q l] l2 by simp
  have p: "rows_paired store_two_owners"
    by (simp add: rows_paired_def store_two_owners_def log_invoice_def empty_database_def)
  from generate_clicked_accepted [OF v, of id Some "''2024-01-03T10:00:00+00:00''" "''2024-01-03''"
      store_two_owners]
  obtain out s' where g: "generate_clicked id Some ''2024-01-03T10:00:00+00:00'' ''2024-01-03'' pen_bag_form
      shop1_session store_two_owners =
      (out, s',
       log_invoice id ''2024-01-03T10:00:00+00:00'' (vendor_name (w_vendor pen_bag_form)) ''0003'' 22
         (ss_invoice_data s') (ss_user_id shop1_session) store_two_owners)"
    and o: "\<forall>wn. out \<noteq> Rejected wn"
    unfolding r dc n by auto
  from append_writes_both_rows [of id "''2024-01-03T10:00:00+00:00''" _ _ _ _ _ store_two_owners
      Some "''2024-01-03T10:00:00+00:00''" "''2024-01-03''" pen_bag_form shop1_session out s'
      "log_invoice id ''2024-01-03T10:00:00+00:00'' (vendor_name (w_vendor pen_bag_form)) ''0003'' 22
         (ss_invoice_data s') (ss_user_id shop1_session) store_two_owners"] g o
  obtain row frow where
    "invoices (log_invoice id ''2024-01-03T10:00:00+00:00'' (vendor_name (w_vendor pen_bag_form))
        ''0003'' 22 (ss_invoice_data s') (ss_user_id shop1_session) store_two_owners) =
       invoices store_two_owners @ [row]"
    and "grand_total (ss_invoice_data s') = Some (row_total row)"
    by blast
  then have t: "grand_total (ss_invoice_data s') = Some 22"
    by (auto simp: log_invoice_def)
  show ?thesis
    unfolding g using o p l2 lf t by (simp add: log_invoice_def)
qed

text \<open>Every run of the application keeps the rows it found, in their order.\<close>

lemma app_keeps_rows:
  "\<exists>rows frows.
     invoices (fst (snd (app dumps loads a s db))) = invoices db @ rows \<and>
     invoices_full (fst (snd (app dumps loads a s db))) = invoices_full db @ frows"
proof -
  from app_database [of dumps loads a s db]
  consider "fst (snd (app dumps loads a s db)) = db"
    | ts v t d where "fst (snd (app dumps loads a s db)) =
        log_invoice dumps ts v (next_invoice_no db) t d (ss_user_id s) db"
    by blast
  then show ?thesis
  proof cases
    case 1
    then show ?thesis by simp
  next
    case 2
    then show ?thesis by (simp add: log_invoice_def)
  qed
qed

lemma app_runs_keeps_rows:
  "\<exists>rows frows.
     invoices (app_runs dumps loads steps db) = invoices db @ rows \<and>
     invoices_full (app_runs dumps loads steps db) = invoices_full db @ frows"
proof (induction steps arbitrary: db)
  case Nil
  then show ?case by (simp add: app_runs_def)
next
  case (Cons step steps)
  obtain s a where sa: "step = (s, a)" by (cases step)
  from app_keeps_rows [of dumps loads a s db] obtain rows frows where
    1: "invoices (fst (snd (app dumps loads a s db))) = invoices db @ rows"
      "invoices_full (fst (snd (app dumps loads a s db))) = invoices_full db @ frows"
    by blast
  from Cons.IH [of "fst (snd (app dumps loads a s db))"] obtain rows' frows' where
    2: "invoices (app_runs dumps loads steps (fst (snd (app dumps loads a s db)))) =
          invoices (fst (snd (app dumps loads a s db))) @ rows'"
      "invoices_full (app_runs dumps loads steps (fst (snd (app dumps loads a s db)))) =
          invoices_full (fst (snd (app dumps loads a s db))) @ frows'"
    by blast
  have "app_runs dumps loads (step # steps) db =
    app_runs dumps loads steps (fst (snd (app dumps loads a s db)))"
    by (simp add: app_runs_def sa)
  with 1 2 show ?case by simp
qed

lemma in_sequence_log_invoice:
  assumes "issued_in_sequence db" "length (invoices db) < 10 ^ int_max_str_digits"
  shows "issued_in_sequence (log_invoice dumps ts v (next_invoice_no db) t d uid db)"
proof -
  have "next_invoice_no db = fmt04d (int (length (invoices db)) + 1)"
    using assms by (rule in_sequence_next)
  then show ?thesis
    using assms(1) by (simp add: issued_in_sequence_def log_invoice_def add.commute)
qed


lemma app_runs_in_sequence:
  "length (invoices (app_runs dumps loads steps empty_database)) < 10 ^ int_max_str_digits \<Longrightarrow>
   issued_in_sequence (app_runs dumps loads steps empty_database)"
proof (induction steps rule: rev_induct)
  case Nil
  then show ?case
    by (simp add: app_runs_def issued_in_sequence_def empty_database_def)
next
  case (snoc step steps)
  obtain s a where sa: "step = (s, a)" by (cases step)
  let ?db = "app_runs dumps loads steps empty_database"
  have e: "app_runs dumps loads (steps @ [step]) empty_database =
    fst (snd (app dumps loads a s ?db))"
    by (simp add: app_runs_def sa)
  from app_keeps_rows [of dumps loads a s ?db]
  have "length (invoices ?db) \<le> length (invoices (fst (snd (app dumps loads a s ?db))))"
    by auto
  then have l: "length (invoices ?db) < 10 ^ int_max_str_digits"
    using snoc.prems e by simp
  then have q: "issued_in_sequence ?db"
    by (rule snoc.IH)
  from app_database [of dumps loads a s ?db]
  have "issued_in_sequence (fst (snd (app dumps loads a s ?db)))"
    using q in_sequence_log_invoice [OF q l] by auto
  then show ?case
    by (simp only: e)
qed

lemma load_clicked_found:
  "k \<noteq> [] \<Longrightarrow> get_full_invoice_data loads k (ss_user_id s) db = Inr (Some d) \<Longrightarrow>
   load_clicked loads k s db = Inr (s\<lparr>ss_invoice_data := d\<rparr>)"
  by (simp add: load_clicked_def)

text \<open>
  Claim C7, as amended. Every run of the application, and so every sequence of runs,
  leaves the rows of both tables as they were and at most appends to them. Loading a
  stored document makes it the draft; generating from that draft appends one summary
  row and one full-document row under the next number of the sequence generator, and
  the document loaded is still the one retrieved under its number. That next number is
  held by no stored row, so it differs from the number of the document loaded, whenever
  the numbers of the store were issued in sequence (fewer than \<open>10 ^ 4300\<close> of them), as
  they are in every store the application alone has written from the empty one.
\<close>

theorem store_is_append_only:
  "(\<exists>rows frows.
      invoices (fst (snd (app dumps loads a s db))) = invoices db @ rows \<and>
      invoices_full (fst (snd (app dumps loads a s db))) = invoices_full db @ frows) \<and>
   (\<exists>rows frows.
      invoices (app_runs dumps loads steps db) = invoices db @ rows \<and>
      invoices_full (app_runs dumps loads steps db) = invoices_full db @ frows) \<and>
   (k \<noteq> [] \<and> get_full_invoice_data loads k (ss_user_id s) db = Inr (Some d) \<longrightarrow>
      load_clicked loads k s db = Inr (s\<lparr>ss_invoice_data := d\<rparr>)) \<and>
   (get_full_invoice_data loads k (ss_user_id s) db = Inr (Some d) \<and>
    generate_clicked dumps loads ts today w (s\<lparr>ss_invoice_data := d\<rparr>) db =
      (Generated no gt qr, s', db') \<longrightarrow>
      no = next_invoice_no db \<and>
      (\<exists>row frow.
         invoices db' = invoices db @ [row] \<and> invoices_full db' = invoices_full db @ [frow] \<and>
         row_invoice_no row = no \<and> full_invoice_no frow = no) \<and>
      get_full_invoice_data loads k (ss_user_id s) db' = Inr (Some d) \<and>
      (issued_in_sequence db \<and> length (invoices db) < 10 ^ int_max_str_digits \<longrightarrow>
         no \<noteq> k \<and>
         no \<notin> set (map row_invoice_no (invoices db)) \<and>
         no \<notin> set (map full_invoice_no (invoices_full db)) \<and>
         issued_in_sequence db')) \<and>
   (length (invoices (app_runs dumps loads steps empty_database)) < 10 ^ int_max_str_digits \<longrightarrow>
      issued_in_sequence (app_runs dumps loads steps empty_database))"
proof -
  have r: "no = next_invoice_no db \<and>
      (\<exists>row frow.
         invoices db' = invoices db @ [row] \<and> invoices_full db' = invoices_full db @ [frow] \<and>
         row_invoice_no row = no \<and> full_invoice_no frow = no) \<and>
      get_full_invoice_data loads k (ss_user_id s) db' = Inr (Some d) \<and>
      (issued_in_sequence db \<and> length (invoices db) < 10 ^ int_max_str_digits \<longrightarrow>
         no \<noteq> k \<and>
         no \<notin> set (map row_invoice_no (invoices db)) \<and>
         no \<notin> set (map full_invoice_no (invoices_full db)) \<and>
         issued_in_sequence db')"
    if f: "get_full_invoice_data loads k (ss_user_id s) db = Inr (Some d)"
      and g: "generate_clicked dumps loads ts today w (s\<lparr>ss_invoice_data := d\<rparr>) db =
        (Generated no gt qr, s', db')"
  proof -
    have n: "no = next_invoice_no db"
      using g by (rule generated_number)
    from get_full_Some [OF f] obtain r0 where r0: "r0 \<in> set (invoices_full db)"
      "full_invoice_no r0 = k" "full_user_id r0 = ss_user_id s"
      by blast
    have "item_validation (items (fst (render_form w (ss_invoice_data (s\<lparr>ss_invoice_data := d\<rparr>)))))
      = None"
    proof (cases "item_validation (items (fst (render_form w (ss_invoice_data (s\<lparr>ss_invoice_data := d\<rparr>)))))")
      case None
      then show ?thesis .
    next
      case (Some wn)
      from generate_clicked_rejected [OF Some, of dumps loads ts today db] g
      show ?thesis by simp
    qed
    from generate_clicked_accepted [OF this, of dumps loads ts today db] g
    obtain v t d' where d: "db' = log_invoice dumps ts v (next_invoice_no db) t d' (ss_user_id s) db"
      by auto
    have a: "\<exists>row frow.
         invoices db' = invoices db @ [row] \<and> invoices_full db' = invoices_full db @ [frow] \<and>
         row_invoice_no row = no \<and> full_invoice_no frow = no"
      unfolding d n by (simp add: log_invoice_def)
    have b: "get_full_invoice_data loads k (ss_user_id s) db' = Inr (Some d)"
      unfolding d using r0 f by (subst get_after_log_existing) auto
    have c: "no \<noteq> k \<and>
         no \<notin> set (map row_invoice_no (invoices db)) \<and>
         no \<notin> set (map full_invoice_no (invoices_full db)) \<and>
         issued_in_sequence db'"
      if q: "issued_in_sequence db" and l: "length (invoices db) < 10 ^ int_max_str_digits"
    proof -
      from next_number_fresh [OF q l]
      have fr: "no \<notin> set (map row_invoice_no (invoices db))"
        "no \<notin> set (map full_invoice_no (invoices_full db))"
        unfolding n by simp_all
      have "k \<in> set (map full_invoice_no (invoices_full db))"
        using r0 by force
      with fr have "no \<noteq> k" by blast
      moreover have "issued_in_sequence db'"
        unfolding d by (rule in_sequence_log_invoice [OF q l])
      ultimately show ?thesis using fr by simp
    qed
    show ?thesis
      using n a b c by blast
  qed
  have l: "k \<noteq> [] \<and> get_full_invoice_data loads k (ss_user_id s) db = Inr (Some d) \<longrightarrow>
      load_clicked loads k s db = Inr (s\<lparr>ss_invoice_data := d\<rparr>)"
    using load_clicked_found [of k loads s db d] by blast
  have i: "length (invoices (app_runs dumps loads steps empty_database)) < 10 ^ int_max_str_digits \<longrightarrow>
      issued_in_sequence (app_runs dumps loads steps empty_database)"
    using app_runs_in_sequence [of dumps loads steps] by blast
  show ?thesis
    by (intro conjI app_keeps_rows app_runs_keeps_rows l i impI r) blast+
qed

text \<open>
  The claim as stated fails where the most recent number is not the highest. In the store
  with \<^verbatim>\<open>0001\<close> of the first shop followed by \<^verbatim>\<open>abc\<close>, the first shop loads
  \<^verbatim>\<open>0001\<close> and generates from it: the new rows are numbered \<^verbatim>\<open>0001\<close> as well.
\<close>

theorem resubmission_reuses_number:
  "load_clicked Some ''0001'' shop1_session store_0001_abc =
     Inr (shop1_session\<lparr>ss_invoice_data := pen_doc ''0001''\<rparr>) \<and>
   fst (generate_clicked id Some ''2024-01-03T10:00:00+00:00'' ''2024-01-03'' pen_bag_form
          (shop1_session\<lparr>ss_invoice_data := pen_doc ''0001''\<rparr>) store_0001_abc) =
     Generated ''0001'' 17 (Qr_invoice (pen_doc ''0001'')) \<and>
   map row_invoice_no (invoices (snd (snd (generate_clicked id Some ''2024-01-03T10:00:00+00:00'' ''2024-01-03'' pen_bag_form
          (shop1_session\<lparr>ss_invoice_data := pen_doc ''0001''\<rparr>) store_0001_abc)))) =
     [''0001'', ''abc'', ''0001'']"
proof -
  have f: "invoices_full store_0001_abc =
    [\<lparr>full_timestamp = ''2024-01-01T10:00:00+00:00'', full_invoice_no = ''0001'',
      full_invoice_json = pen_doc ''0001'', full_user_id = ''shop1''\<rparr>,
     \<lparr>full_timestamp = ''2024-01-02T10:00:00+00:00'', full_invoice_no = ''abc'',
      full_invoice_json = bag_doc ''abc'', full_user_id = ''shop2''\<rparr>]"
    by (simp add: store_0001_abc_def log_invoice_def empty_database_def)
  have i: "invoices store_0001_abc =
    [\<lparr>row_timestamp = ''2024-01-01T10:00:00+00:00'', row_vendor = ''Corner Shop'',
      row_invoice_no = ''0001'', row_total = 10, row_user_id = ''shop1''\<rparr>] @
    [\<lparr>row_timestamp = ''2024-01-02T10:00:00+00:00'', row_vendor = ''Corner Shop'',
      row_invoice_no = ''abc'', row_total = 5, row_user_id = ''shop2''\<rparr>]"
    by (simp add: store_0001_abc_def log_invoice_def empty_database_def)
  have u: "ss_user_id shop1_session = ''shop1''"
    by (simp add: shop1_session_def)
  have a: "load_clicked Some ''0001'' shop1_session store_0001_abc =
     Inr (shop1_session\<lparr>ss_invoice_data := pen_doc ''0001''\<rparr>)"
    by (simp add: load_clicked_def get_full_invoice_data_def f u)
  have "py_int ''abc'' = None" by code_simp
  then have n: "fmt04d (get_last_invoice_no_from_db store_0001_abc + 1) = ''0001''"
    by (simp add: get_last_snoc [OF i] fmt04d_one)
  have r: "render_form pen_bag_form (pen_doc ''0001'') =
     ((pen_doc ''0001'')\<lparr>items := [\<lparr>item_name = ''Pen'', item_quantity = 2, item_price = 10,
                   item_line_total = Some 20\<rparr>]\<rparr>, 20)"
    by (simp add: render_form_def pen_bag_form_def pen_doc_def two_item_draft_def Let_def
        shop_vendor_def)
  have dc: "w_discount_amount pen_bag_form = 3"
    by (simp add: pen_bag_form_def)
  have g: "generate_clicked id Some ''2024-01-03T10:00:00+00:00'' ''2024-01-03'' pen_bag_form
          (shop1_session\<lparr>ss_invoice_data := pen_doc ''0001''\<rparr>) store_0001_abc =
     (Generated ''0001'' 17 (Qr_invoice (pen_doc ''0001'')),
      fst (snd (generate_clicked id Some ''2024-01-03T10:00:00+00:00'' ''2024-01-03'' pen_bag_form
          (shop1_session\<lparr>ss_invoice_data := pen_doc ''0001''\<rparr>) store_0001_abc)),
      snd (snd (generate_clicked id Some ''2024-01-03T10:00:00+00:00'' ''2024-01-03'' pen_bag_form
          (shop1_session\<lparr>ss_invoice_data := pen_doc ''0001''\<rparr>) store_0001_abc)))"
    unfolding generate_clicked_def
    by (simp add: r dc n f u Let_def is_valid_items_def log_invoice_def get_full_invoice_data_def)
  have m: "map row_invoice_no (invoices (snd (snd (generate_clicked id Some ''2024-01-03T10:00:00+00:00'' ''2024-01-03'' pen_bag_form
          (shop1_session\<lparr>ss_invoice_data := pen_doc ''0001''\<rparr>) store_0001_abc)))) =
     [''0001'', ''abc'', ''0001'']"
    unfolding generate_clicked_def
    by (simp add: r dc n f u i Let_def is_valid_items_def log_invoice_def get_full_invoice_data_def)
  show ?thesis
    using a g m by (metis fst_conv)
qed


text \<open>
  In the store with \<^verbatim>\<open>0001\<close> and \<^verbatim>\<open>0002\<close>, the first shop loads \<^verbatim>\<open>0001\<close> and
  generates from it: the new rows are numbered \<^verbatim>\<open>0003\<close>, and \<^verbatim>\<open>0001\<close> is retrieved
  as before.
\<close>

theorem store_is_append_only_witness:
  "get_full_invoice_data Some ''0001'' (ss_user_id shop1_session) store_two_owners =
     Inr (Some (pen_doc ''0001'')) \<and>
   load_clicked Some ''0001'' shop1_session store_two_owners =
     Inr (shop1_session\<lparr>ss_invoice_data := pen_doc ''0001''\<rparr>) \<and>
   fst (generate_clicked id Some ''2024-01-03T10:00:00+00:00'' ''2024-01-03'' pen_bag_form
      (shop1_session\<lparr>ss_invoice_data := pen_doc ''0001''\<rparr>) store_two_owners) = Generated ''0003'' 17 (Qr_invoice (ss_invoice_data (fst (snd (generate_clicked id Some ''2024-01-03T10:00:00+00:00'' ''2024-01-03'' pen_bag_form
      (shop1_session\<lparr>ss_invoice_data := pen_doc ''0001''\<rparr>) store_two_owners))))) \<and>
   issued_in_sequence store_two_owners \<and>
   length (invoices store_two_owners) < 10 ^ int_max_str_digits \<and>
   get_full_invoice_data Some ''0001'' (ss_user_id shop1_session) (snd (snd (generate_clicked id Some ''2024-01-03T10:00:00+00:00'' ''2024-01-03'' pen_bag_form
      (shop1_session\<lparr>ss_invoice_data := pen_doc ''0001''\<rparr>) store_two_owners))) =
     Inr (Some (pen_doc ''0001'')) \<and>
   ''0003'' \<noteq> ''0001'' \<and>
   issued_in_sequence (snd (snd (generate_clicked id Some ''2024-01-03T10:00:00+00:00'' ''2024-01-03'' pen_bag_form
      (shop1_session\<lparr>ss_invoice_data := pen_doc ''0001''\<rparr>) store_two_owners)))"
proof -
  have f: "invoices_full store_two_owners =
    [\<lparr>full_timestamp = ''2024-01-01T10:00:00+00:00'', full_invoice_no = ''0001'',
      full_invoice_json = pen_doc ''0001'', full_user_id = ''shop1''\<rparr>,
     \<lparr>full_timestamp = ''2024-01-02T10:00:00+00:00'', full_invoice_no = ''0002'',
      full_invoice_json = bag_doc ''0002'', full_user_id = ''shop2''\<rparr>]"
    by (simp add: store_two_owners_def log_invoice_def empty_database_def)
  have u: "ss_user_id shop1_session = ''shop1''"
    by (simp add: shop1_session_def)
  have a: "get_full_invoice_data Some ''0001'' (ss_user_id shop1_session) store_two_owners =
     Inr (Some (pen_doc ''0001''))"
    by (simp add: get_full_invoice_data_def f u)
  have q: "issued_in_sequence store_two_owners"
    by code_simp
  have l2: "length (invoices store_two_owners) = 2"
    by (simp add: store_two_owners_def log_invoice_def empty_database_def)
  then have l: "length (invoices store_two_owners) < 10 ^ int_max_str_digits"
    by (simp add: small_below_limit)
  have "fmt04d (int 2 + 1) = ''0003''" by code_simp
  then have "next_invoice_no store_two_owners = ''0003''"
    using in_sequence_next [OF q l] l2 by simp
  then have n: "fmt04d (get_last_invoice_no_from_db store_two_owners + 1) = ''0003''"
    by (simp add: next_invoice_no_def)
  have r: "render_form pen_bag_form (pen_doc ''0001'') =
     ((pen_doc ''0001'')\<lparr>items := [\<lparr>item_name = ''Pen'', item_quantity = 2, item_price = 10,
                   item_line_total = Some 20\<rparr>]\<rparr>, 20)"
    by (simp add: render_form_def pen_bag_form_def pen_doc_def two_item_draft_def Let_def
        shop_vendor_def)
  have dc: "w_discount_amount pen_bag_form = 3"
    by (simp add: pen_bag_form_def)
  have g: "generate_clicked id Some ''2024-01-03T10:00:00+00:00'' ''2024-01-03'' pen_bag_form
      (shop1_session\<lparr>ss_invoice_data := pen_doc ''0001''\<rparr>) store_two_owners =
     (Generated ''0003'' 17 (Qr_invoice (ss_invoice_data (fst (snd (generate_clicked id Some ''2024-01-03T10:00:00+00:00'' ''2024-01-03'' pen_bag_form
      (shop1_session\<lparr>ss_invoice_data := pen_doc ''0001''\<rparr>) store_two_owners))))),
      fst (snd (generate_clicked id Some ''2024-01-03T10:00:00+00:00'' ''2024-01-03'' pen_bag_form
      (shop1_session\<lparr>ss_invoice_data := pen_doc ''0001''\<rparr>) store_two_owners)), snd (snd (generate_clicked id Some ''2024-01-03T10:00:00+00:00'' ''2024-01-03'' pen_bag_form
      (shop1_session\<lparr>ss_invoice_data := pen_doc ''0001''\<rparr>) store_two_owners)))"
    unfolding generate_clicked_def
    by (simp add: r dc n f u Let_def is_valid_items_def log_invoice_def get_full_invoice_data_def)
  note t = store_is_append_only [where loads = Some and dumps = id and k = "''0001''"
      and s = shop1_session and db = store_two_owners and d = "pen_doc ''0001''"
      and ts = "''2024-01-03T10:00:00+00:00''" and today = "''2024-01-03''"
      and w = pen_bag_form and no = "''0003''" and gt = 17
      and qr = "Qr_invoice (ss_invoice_data (fst (snd (generate_clicked id Some ''2024-01-03T10:00:00+00:00'' ''2024-01-03'' pen_bag_form
      (shop1_session\<lparr>ss_invoice_data := pen_doc ''0001''\<rparr>) store_two_owners))))"
      and s' = "fst (snd (generate_clicked id Some ''2024-01-03T10:00:00+00:00'' ''2024-01-03'' pen_bag_form
      (shop1_session\<lparr>ss_invoice_data := pen_doc ''0001''\<rparr>) store_two_owners))" and db' = "snd (snd (generate_clicked id Some ''2024-01-03T10:00:00+00:00'' ''2024-01-03'' pen_bag_form
      (shop1_session\<lparr>ss_invoice_data := pen_doc ''0001''\<rparr>) store_two_owners))"]
  have b: "load_clicked Some ''0001'' shop1_session store_two_owners =
     Inr (shop1_session\<lparr>ss_invoice_data := pen_doc ''0001''\<rparr>)"
    using t a by blast
  have c: "get_full_invoice_data Some ''0001'' (ss_user_id shop1_session) (snd (snd (generate_clicked id Some ''2024-01-03T10:00:00+00:00'' ''2024-01-03'' pen_bag_form
      (shop1_session\<lparr>ss_invoice_data := pen_doc ''0001''\<rparr>) store_two_owners))) =
     Inr (Some (pen_doc ''0001''))"
    using t a g by blast
  have d: "''0003'' \<noteq> ''0001''"
    by simp
  have e: "issued_in_sequence (snd (snd (generate_clicked id Some ''2024-01-03T10:00:00+00:00'' ''2024-01-03'' pen_bag_form
      (shop1_session\<lparr>ss_invoice_data := pen_doc ''0001''\<rparr>) store_two_owners)))"
    using t a g q l by blast
  have h: "fst (generate_clicked id Some ''2024-01-03T10:00:00+00:00'' ''2024-01-03'' pen_bag_form
      (shop1_session\<lparr>ss_invoice_data := pen_doc ''0001''\<rparr>) store_two_owners) = Generated ''0003'' 17 (Qr_invoice (ss_invoice_data (fst (snd (generate_clicked id Some ''2024-01-03T10:00:00+00:00'' ''2024-01-03'' pen_bag_form
      (shop1_session\<lparr>ss_invoice_data := pen_doc ''0001''\<rparr>) store_two_owners)))))"
    using g by (metis fst_conv)
  show ?thesis
    by (intro conjI a b h q l c d e)
qed

end
